theory Spec2Isabelle
  imports Main "HOL-Library.Word" "HOL-Library.Sublist"
begin

section \<open>Strings\<close>

text \<open>
  A JavaScript string is a sequence of UTF-16 code units; \<open>length\<close>, \<open>includes\<close>,
  \<open>startsWith\<close>, \<open>trim\<close> and the regular expressions without the \<open>u\<close> flag all work on
  code units. A character outside the Basic Multilingual Plane is two units (a surrogate pair).
\<close>

type_synonym jschar = "16 word"
type_synonym jsstring = "jschar list"

definition u16 :: "string \<Rightarrow> jsstring" where
  "u16 s = map (\<lambda>c. of_nat (of_char c)) s"

text \<open>White space and line terminators of ECMAScript: what \<open>\s\<close> matches and \<open>trim\<close> strips.\<close>

definition isWhiteSpace :: "jschar \<Rightarrow> bool" where
  "isWhiteSpace c =
     (c = 0x09 \<or> c = 0x0A \<or> c = 0x0B \<or> c = 0x0C \<or> c = 0x0D \<or> c = 0x20 \<or> c = 0xA0 \<or>
      c = 0x1680 \<or> (0x2000 \<le> c \<and> c \<le> 0x200A) \<or> c = 0x2028 \<or> c = 0x2029 \<or>
      c = 0x202F \<or> c = 0x205F \<or> c = 0x3000 \<or> c = 0xFEFF)"

definition trim :: "jsstring \<Rightarrow> jsstring" where
  "trim s = rev (dropWhile isWhiteSpace (rev (dropWhile isWhiteSpace s)))"

definition startsWith :: "jsstring \<Rightarrow> jsstring \<Rightarrow> bool" where
  "startsWith s p = (take (length p) s = p)"

fun str_includes :: "jsstring \<Rightarrow> jsstring \<Rightarrow> bool" where
  "str_includes [] t = (t = [])"
| "str_includes (c # cs) t = (startsWith (c # cs) t \<or> str_includes cs t)"

text \<open>\<open>s.replace(/c/g, r)\<close> for a single literal character \<open>c\<close>.\<close>

definition replaceAllChar :: "jschar \<Rightarrow> jsstring \<Rightarrow> jsstring \<Rightarrow> jsstring" where
  "replaceAllChar c r s = concat (map (\<lambda>x. if x = c then r else [x]) s)"

text \<open>
  \<open>s.split(/\s+/)\<close>: the string is cut at every maximal run of white space; a run at the
  start or the end leaves an empty string there, and the empty string gives one empty piece.
\<close>

function splitWs :: "jsstring \<Rightarrow> jsstring \<Rightarrow> jsstring list" where
  "splitWs cur [] = [cur]"
| "splitWs cur (c # cs) =
     (if isWhiteSpace c then cur # splitWs [] (dropWhile isWhiteSpace cs)
      else splitWs (cur @ [c]) cs)"
  by pat_completeness auto
termination
  by (relation "measure (\<lambda>(cur, s). length s)")
     (auto simp add: le_imp_less_Suc length_dropWhile_le)

text \<open>
  \<open>s.replace(pattern, replacement)\<close> with a string pattern: only the first occurrence is
  replaced. The replacement strings of this program contain no \<open>$\<close>, so they are inserted
  as they are.
\<close>

fun replaceFirst :: "jsstring \<Rightarrow> jsstring \<Rightarrow> jsstring \<Rightarrow> jsstring" where
  "replaceFirst [] pat rep = (if pat = [] then rep else [])"
| "replaceFirst (c # cs) pat rep =
     (if startsWith (c # cs) pat then rep @ drop (length pat) (c # cs)
      else c # replaceFirst cs pat rep)"

text \<open>\<open>String(n)\<close> for a natural number: its decimal digits.\<close>

fun numberToString :: "nat \<Rightarrow> jsstring" where
  "numberToString n =
     (if n < 10 then [of_nat (48 + n)]
      else numberToString (n div 10) @ [of_nat (48 + n mod 10)])"

declare numberToString.simps [simp del]

text \<open>\<open>String(i)\<close> for an integer, and \<open>s.padStart(n, c)\<close> for a one-unit filler.\<close>

definition intToString :: "int \<Rightarrow> jsstring" where
  "intToString i =
     (if i < 0 then u16 ''-'' @ numberToString (nat (- i)) else numberToString (nat i))"

definition padStart :: "jsstring \<Rightarrow> nat \<Rightarrow> jschar \<Rightarrow> jsstring" where
  "padStart s n c = replicate (n - length s) c @ s"

text \<open>\<open>s.substring(i, j)\<close> for \<open>i \<le> j\<close>, as every call here has it.\<close>

definition substring :: "jsstring \<Rightarrow> nat \<Rightarrow> nat \<Rightarrow> jsstring" where
  "substring s i j = take (j - i) (drop i s)"

section \<open>Regular expressions\<close>

text \<open>
  The regular expressions of this program, as syntax trees: a test on one code unit
  (\<open>Ch\<close>), a greedy repetition of such a test with its bounds (\<open>Rep\<close>: \<open>*\<close>, \<open>+\<close>, \<open>?\<close>,
  \<open>{n}\<close> on a single-unit atom), sequence, alternative, capture group, and the line
  assertions \<open>^\<close> and \<open>$\<close> under the \<open>m\<close> flag.

  \<open>rmatch r s (i, c)\<close> lists the ways in which \<open>r\<close> matches \<open>s\<close> from position \<open>i\<close>, as end
  position and captures, in the order in which a backtracking matcher tries them: the first
  element is the match that \<open>exec\<close> reports. A greedy repetition tries the longest run first.
\<close>

definition isLineTerminator :: "jschar \<Rightarrow> bool" where
  "isLineTerminator c = (c = 0x0A \<or> c = 0x0D \<or> c = 0x2028 \<or> c = 0x2029)"

type_synonym captures = "nat \<rightharpoonup> nat \<times> nat"

datatype regex =
    Ch "jschar \<Rightarrow> bool"
  | Rep "jschar \<Rightarrow> bool" nat "nat option"
  | Seq regex regex
  | Alt regex regex
  | Cap nat regex
  | Bol
  | Eol
  | Eps

fun rmatch :: "regex \<Rightarrow> jsstring \<Rightarrow> nat \<times> captures \<Rightarrow> (nat \<times> captures) list" where
  "rmatch (Ch p) s (i, c) = (if i < length s \<and> p (s ! i) then [(i + 1, c)] else [])"
| "rmatch (Rep p mn mx) s (i, c) =
     (let n = length (takeWhile p (drop i s));
          n' = (case mx of None \<Rightarrow> n | Some m \<Rightarrow> min n m)
      in map (\<lambda>k. (i + k, c)) (rev [mn ..< n' + 1]))"
| "rmatch (Seq a b) s st = concat (map (rmatch b s) (rmatch a s st))"
| "rmatch (Alt a b) s st = rmatch a s st @ rmatch b s st"
| "rmatch (Cap n a) s (i, c) = map (\<lambda>(j, c'). (j, c'(n \<mapsto> (i, j)))) (rmatch a s (i, c))"
| "rmatch Bol s (i, c) =
     (if i = 0 \<or> (i - 1 < length s \<and> isLineTerminator (s ! (i - 1))) then [(i, c)] else [])"
| "rmatch Eol s (i, c) =
     (if i \<ge> length s \<or> isLineTerminator (s ! i) then [(i, c)] else [])"
| "rmatch Eps s st = [st]"

fun seqs :: "regex list \<Rightarrow> regex" where
  "seqs [] = Eps"
| "seqs [r] = r"
| "seqs (r # rs) = Seq r (seqs rs)"

text \<open>
  \<open>r.exec(s)\<close> with \<open>lastIndex\<close> as the position to start from: the leftmost position at
  which \<open>r\<close> matches, with the end of the match and its captures.
\<close>

definition regexExec :: "regex \<Rightarrow> jsstring \<Rightarrow> nat \<Rightarrow> (nat \<times> nat \<times> captures) option" where
  "regexExec r s lastIndex =
     (case List.find (\<lambda>i. rmatch r s (i, Map.empty) \<noteq> []) [lastIndex ..< length s + 1] of
        None \<Rightarrow> None
      | Some i \<Rightarrow> Some (i, hd (rmatch r s (i, Map.empty))))"

definition isChar :: "jschar \<Rightarrow> jschar \<Rightarrow> bool" where
  "isChar x c = (c = x)"

definition dot :: "jschar \<Rightarrow> bool" where
  "dot c = (\<not> isLineTerminator c)"

definition digit :: "jschar \<Rightarrow> bool" where
  "digit c = (0x30 \<le> c \<and> c \<le> 0x39)"

subsection \<open>utils/regexUtils.ts\<close>

text \<open>
  \<open>escapeRegExp\<close> puts a backslash before each of \<open>. * + ? ^ $ { } ( ) | [ ] \\<close>.
\<close>

definition isRegExpSpecial :: "jschar \<Rightarrow> bool" where
  "isRegExpSpecial c =
     (c = 0x2E \<or> c = 0x2A \<or> c = 0x2B \<or> c = 0x3F \<or> c = 0x5E \<or> c = 0x24 \<or> c = 0x7B \<or>
      c = 0x7D \<or> c = 0x28 \<or> c = 0x29 \<or> c = 0x7C \<or> c = 0x5B \<or> c = 0x5D \<or> c = 0x5C)"

definition escapeRegExp :: "jsstring \<Rightarrow> jsstring" where
  "escapeRegExp string = concat (map (\<lambda>c. if isRegExpSpecial c then [0x5C, c] else [c]) string)"

text \<open>
  A pattern text in which every special character is escaped, read as a regular expression:
  a backslash makes the next character literal, every other character stands for itself.
\<close>

fun literalPattern :: "jsstring \<Rightarrow> regex list" where
  "literalPattern [] = []"
| "literalPattern [c] = [Ch (isChar c)]"
| "literalPattern (c # d # rest) =
     (if c = 0x5C then Ch (isChar d) # literalPattern rest
      else Ch (isChar c) # literalPattern (d # rest))"

text \<open>\<open>/^\s*-\s*\[(.)\]\s*(.+)$/gm\<close>\<close>

definition taskRegex :: regex where
  "taskRegex =
     seqs [Bol, Rep isWhiteSpace 0 None, Ch (isChar 0x2D), Rep isWhiteSpace 0 None,
           Ch (isChar 0x5B), Cap 1 (Ch dot), Ch (isChar 0x5D), Rep isWhiteSpace 0 None,
           Cap 2 (Rep dot 1 None), Eol]"

text \<open>
  \<open>/(?:[@#]|due:\s?|\<dots>\s?)(\d{4}-\d{2}-\d{2})/i\<close>, where \<open>\<dots>\<close> is the calendar emoji
  U+1F4C5, the two code units D83D DCC5. Under the \<open>i\<close> flag the letters of \<open>due\<close> match in
  either case; no other character of the pattern has a second case.
\<close>

definition ciChar :: "jschar \<Rightarrow> jschar \<Rightarrow> jschar \<Rightarrow> bool" where
  "ciChar lower upper c = (c = lower \<or> c = upper)"

definition dueDateRegex :: regex where
  "dueDateRegex =
     Seq (Alt (Ch (\<lambda>c. c = 0x40 \<or> c = 0x23))
           (Alt (seqs [Ch (ciChar 0x64 0x44), Ch (ciChar 0x75 0x55), Ch (ciChar 0x65 0x45),
                       Ch (isChar 0x3A), Rep isWhiteSpace 0 (Some 1)])
                (seqs [Ch (isChar 0xD83D), Ch (isChar 0xDCC5), Rep isWhiteSpace 0 (Some 1)])))
         (Cap 1 (seqs [Rep digit 4 (Some 4), Ch (isChar 0x2D), Rep digit 2 (Some 2),
                       Ch (isChar 0x2D), Rep digit 2 (Some 2)]))"


section \<open>Tasks and filter expressions (services/taskService.ts)\<close>

text \<open>
  A \<open>Date\<close> holds a time value: a whole number of milliseconds since the epoch (UTC), or
  NaN for an invalid date.
\<close>

datatype Date = InvalidDate | Date int

record Task =
  "text" :: jsstring
  completed :: bool
  filePath :: jsstring
  dueDate :: "Date option"
  rawText :: jsstring

datatype FilterRuleType = Include | Exclude

record FilterRule =
  type :: FilterRuleType
  "value" :: jsstring
  isTag :: bool

datatype LogicalOperator = And | Or

datatype NodeType = RuleT | LogicalT | GroupT

text \<open>
  The interface \<open>ExpressionNode\<close>: the tag \<open>type\<close>, then the optional fields \<open>rule\<close>,
  \<open>operator\<close>, \<open>left\<close>, \<open>right\<close> and \<open>expressions\<close>, in this order.
\<close>

datatype ExpressionNode = ExpressionNode
  NodeType "FilterRule option" "LogicalOperator option"
  "ExpressionNode option" "ExpressionNode option"
  "ExpressionNode list option"

text \<open>The three object literals the parser builds.\<close>

definition mkRule :: "FilterRule \<Rightarrow> ExpressionNode" where
  "mkRule r = ExpressionNode RuleT (Some r) None None None None"

definition mkLogical ::
  "LogicalOperator \<Rightarrow> ExpressionNode \<Rightarrow> ExpressionNode \<Rightarrow> ExpressionNode" where
  "mkLogical op l r = ExpressionNode LogicalT None (Some op) (Some l) (Some r) None"

definition mkGroup :: "ExpressionNode list \<Rightarrow> ExpressionNode" where
  "mkGroup es = ExpressionNode GroupT None None None None (Some es)"

subsection \<open>tokenizeFilter\<close>

definition tokenizeFilter :: "jsstring \<Rightarrow> jsstring list" where
  "tokenizeFilter filterString =
     (let normalizedString =
            replaceAllChar 0x29 (u16 '' ) '') (replaceAllChar 0x28 (u16 '' ( '') filterString)
      in filter (\<lambda>token. trim token \<noteq> []) (splitWs [] normalizedString))"

subsection \<open>parseTokens\<close>

text \<open>\<open>tokens[index]\<close>: \<open>undefined\<close> beyond the end of the array.\<close>

definition tokenAt :: "jsstring list \<Rightarrow> nat \<Rightarrow> jsstring option" where
  "tokenAt tokens i = (if i < length tokens then Some (tokens ! i) else None)"

text \<open>
  The closures of \<open>parseTokens\<close> share the cursor \<open>index\<close>; here each takes the cursor and
  returns the new one with its node. \<open>parseRule\<close> advances the cursor also when no token is
  left (\<open>token\<close> is then \<open>undefined\<close> and the value the empty string).
\<close>

definition parseRule :: "jsstring list \<Rightarrow> nat \<Rightarrow> ExpressionNode \<times> nat" where
  "parseRule tokens index =
    (let token = tokenAt tokens index;
         value0 = (case token of Some t \<Rightarrow> t | None \<Rightarrow> []);
         excl = (case token of Some t \<Rightarrow> t \<noteq> [] \<and> startsWith t (u16 ''!'') | None \<Rightarrow> False);
         type1 = (if excl then Exclude else Include);
         value1 = (if excl then drop 1 value0 else value0);
         tag = (value1 \<noteq> [] \<and> startsWith value1 (u16 ''#''));
         value2 = (if tag then drop 1 value1 else value1)
     in (mkRule \<lparr>type = type1, value = value2, isTag = tag\<rparr>, index + 1))"

text \<open>
  The two \<open>while\<close> loops are \<open>logicalLoop\<close> (in \<open>parseLogicalExpression\<close>) and
  \<open>groupLoop\<close> (in \<open>parsePrimaryExpression\<close>).
\<close>

function parseExpression :: "jsstring list \<Rightarrow> nat \<Rightarrow> ExpressionNode \<times> nat"
  and parseLogicalExpression :: "jsstring list \<Rightarrow> nat \<Rightarrow> ExpressionNode \<times> nat"
  and logicalLoop :: "jsstring list \<Rightarrow> ExpressionNode \<Rightarrow> nat \<Rightarrow> ExpressionNode \<times> nat"
  and parsePrimaryExpression :: "jsstring list \<Rightarrow> nat \<Rightarrow> ExpressionNode \<times> nat"
  and groupLoop ::
    "jsstring list \<Rightarrow> ExpressionNode list \<Rightarrow> nat \<Rightarrow> ExpressionNode list \<times> nat"
where
  "parseExpression tokens index = parseLogicalExpression tokens index"
| "parseLogicalExpression tokens index =
     (case parsePrimaryExpression tokens index of
        (left, index1) \<Rightarrow> logicalLoop tokens left index1)"
| "logicalLoop tokens left index =
     (if index < length tokens \<and> (tokens ! index = u16 ''and'' \<or> tokens ! index = u16 ''or'')
      then (let operator = (if tokens ! index = u16 ''and'' then And else Or) in
            case parsePrimaryExpression tokens (index + 1) of
              (right, index2) \<Rightarrow> logicalLoop tokens (mkLogical operator left right) index2)
      else (left, index))"
| "parsePrimaryExpression tokens index =
     (if tokenAt tokens index = Some (u16 ''('')
      then (case groupLoop tokens [] (index + 1) of
              (expressions, index1) \<Rightarrow>
                (mkGroup expressions,
                 if index1 < length tokens \<and> tokens ! index1 = u16 '')''
                 then index1 + 1 else index1))
      else parseRule tokens index)"
| "groupLoop tokens expressions index =
     (if index < length tokens \<and> tokens ! index \<noteq> u16 '')''
      then (case parseExpression tokens index of
              (e, index1) \<Rightarrow> groupLoop tokens (expressions @ [e]) index1)
      else (expressions, index))"
  by pat_completeness auto

text \<open>
  Every parsing function moves the cursor forward, and neither loop moves it back: this is
  what makes the loops end.
\<close>

lemma parse_progress:
  "parseExpression_parseLogicalExpression_logicalLoop_parsePrimaryExpression_groupLoop_dom
     (Inl (Inl (ts1, i1))) \<Longrightarrow> i1 < snd (parseExpression ts1 i1)"
  "parseExpression_parseLogicalExpression_logicalLoop_parsePrimaryExpression_groupLoop_dom
     (Inl (Inr (ts2, i2))) \<Longrightarrow> i2 < snd (parseLogicalExpression ts2 i2)"
  "parseExpression_parseLogicalExpression_logicalLoop_parsePrimaryExpression_groupLoop_dom
     (Inr (Inl (ts3, l3, i3))) \<Longrightarrow> i3 \<le> snd (logicalLoop ts3 l3 i3)"
  "parseExpression_parseLogicalExpression_logicalLoop_parsePrimaryExpression_groupLoop_dom
     (Inr (Inr (Inl (ts4, i4)))) \<Longrightarrow> i4 < snd (parsePrimaryExpression ts4 i4)"
  "parseExpression_parseLogicalExpression_logicalLoop_parsePrimaryExpression_groupLoop_dom
     (Inr (Inr (Inr (ts5, es5, i5)))) \<Longrightarrow> i5 \<le> snd (groupLoop ts5 es5 i5)"
proof (induction ts1 i1 and ts2 i2 and ts3 l3 i3 and ts4 i4 and ts5 es5 i5
    rule: parseExpression_parseLogicalExpression_logicalLoop_parsePrimaryExpression_groupLoop.pinduct)
  case (1 tokens index)
  then show ?case by (simp add: parseExpression.psimps)
next
  case (2 tokens index)
  obtain l j where pj: "parsePrimaryExpression tokens index = (l, j)"
    by (cases "parsePrimaryExpression tokens index")
  from 2(2) pj have "index < j" by simp
  moreover from 2(3)[of l j] pj have "j \<le> snd (logicalLoop tokens l j)" by simp
  ultimately show ?case using 2(1) pj by (simp add: parseLogicalExpression.psimps)
next
  case (3 tokens left index)
  show ?case
  proof (cases "index < length tokens \<and>
                (tokens ! index = u16 ''and'' \<or> tokens ! index = u16 ''or'')")
    case True
    obtain r j where pj: "parsePrimaryExpression tokens (index + 1) = (r, j)"
      by (cases "parsePrimaryExpression tokens (index + 1)")
    from 3(2)[OF True refl] pj have a: "index + 1 < j" by simp
    from 3(3)[OF True refl, of r j] pj
    have "j \<le> snd (logicalLoop tokens
                  (mkLogical (if tokens ! index = u16 ''and'' then And else Or) left r) j)"
      by simp
    with a True pj 3(1) show ?thesis by (simp add: logicalLoop.psimps Let_def)
  next
    case False
    then have "logicalLoop tokens left index = (left, index)"
      using 3(1) by (subst logicalLoop.psimps) auto
    then show ?thesis by simp
  qed
next
  case (4 tokens index)
  show ?case
  proof (cases "tokenAt tokens index = Some (u16 ''('')")
    case True
    obtain es j where gj: "groupLoop tokens [] (index + 1) = (es, j)"
      by (cases "groupLoop tokens [] (index + 1)")
    from 4(2)[OF True] gj have "index + 1 \<le> j" by simp
    with True gj 4(1) show ?thesis by (simp add: parsePrimaryExpression.psimps)
  next
    case False
    with 4(1) show ?thesis by (simp add: parsePrimaryExpression.psimps parseRule_def Let_def)
  qed
next
  case (5 tokens expressions index)
  show ?case
  proof (cases "index < length tokens \<and> tokens ! index \<noteq> u16 '')''")
    case True
    obtain e j where pj: "parseExpression tokens index = (e, j)"
      by (cases "parseExpression tokens index")
    from 5(2)[OF True] pj have a: "index < j" by simp
    from 5(3)[OF True, of e j] pj have "j \<le> snd (groupLoop tokens (expressions @ [e]) j)"
      by simp
    with a True pj 5(1) show ?thesis by (simp add: groupLoop.psimps)
  next
    case False
    then have "groupLoop tokens expressions index = (expressions, index)"
      using 5(1) by (subst groupLoop.psimps) auto
    then show ?thesis by simp
  qed
qed

text \<open>The tokens left, then the position of the function in the call chain.\<close>

definition parse_measure ::
  "(jsstring list \<times> nat + jsstring list \<times> nat) + jsstring list \<times> ExpressionNode \<times> nat +
   jsstring list \<times> nat + jsstring list \<times> ExpressionNode list \<times> nat \<Rightarrow> nat \<times> nat" where
  "parse_measure c = (case c of
      Inl (Inl (ts, i)) \<Rightarrow> (length ts - i, 3)
    | Inl (Inr (ts, i)) \<Rightarrow> (length ts - i, 2)
    | Inr (Inl (ts, l, i)) \<Rightarrow> (length ts - i, 0)
    | Inr (Inr (Inl (ts, i))) \<Rightarrow> (length ts - i, 1)
    | Inr (Inr (Inr (ts, es, i))) \<Rightarrow> (length ts - i, 4))"

termination parseExpression
proof (relation "inv_image (less_than <*lex*> less_than) parse_measure", goal_cases)
  case 1
  show ?case by (intro wf_inv_image wf_lex_prod wf_less_than)
next
  case 2
  show ?case by (simp add: parse_measure_def)
next
  case 3
  show ?case by (simp add: parse_measure_def)
next
  case (4 tokens index x xa)
  then have "index < xa" using parse_progress(4)[of tokens index] by (metis snd_conv)
  then show ?case by (auto simp add: parse_measure_def)
next
  case (5 tokens left index x)
  then show ?case by (auto simp add: parse_measure_def)
next
  case (6 tokens left index x xa y)
  then have "index + 1 < y"
    using parse_progress(4)[of tokens "index + 1"] by (metis snd_conv)
  with 6 show ?case by (auto simp add: parse_measure_def)
next
  case (7 tokens index)
  then show ?case by (auto simp add: parse_measure_def tokenAt_def split: if_splits)
next
  case (8 tokens expressions index)
  then show ?case by (simp add: parse_measure_def)
next
  case (9 tokens expressions index x y)
  then have "index < y" using parse_progress(1)[of tokens index] by (metis snd_conv)
  with 9 show ?case by (auto simp add: parse_measure_def)
qed

definition parseTokens :: "jsstring list \<Rightarrow> ExpressionNode" where
  "parseTokens tokens = fst (parseExpression tokens 0)"

subsection \<open>parseCustomFilter\<close>

definition parseCustomFilter :: "jsstring \<Rightarrow> ExpressionNode option" where
  "parseCustomFilter filterString =
     (if trim filterString = [] then None
      else (let tokens = tokenizeFilter filterString in
            if length tokens = 0 then None else Some (parseTokens tokens)))"

subsection \<open>matchFilterRule and evaluateExpression\<close>

definition matchFilterRule :: "Task \<Rightarrow> FilterRule \<Rightarrow> bool" where
  "matchFilterRule task rule =
     (if isTag rule then str_includes (rawText task) (u16 ''#'' @ value rule)
      else (startsWith (filePath task) (value rule @ u16 ''/'') \<or> filePath task = value rule))"

fun evaluateExpression :: "Task \<Rightarrow> ExpressionNode \<Rightarrow> bool" where
  "evaluateExpression task (ExpressionNode RuleT (Some rule) _ _ _ _) =
     (let matches = matchFilterRule task rule in
      if type rule = Include then matches else \<not> matches)"
| "evaluateExpression task (ExpressionNode RuleT None _ _ _ _) = True"
| "evaluateExpression task (ExpressionNode LogicalT _ (Some operator) (Some left) (Some right) _) =
     (let leftResult = evaluateExpression task left;
          rightResult = evaluateExpression task right in
      if operator = And then leftResult \<and> rightResult else leftResult \<or> rightResult)"
| "evaluateExpression task (ExpressionNode LogicalT _ _ _ _ _) = True"
| "evaluateExpression task (ExpressionNode GroupT _ _ _ _ (Some expressions)) =
     (if length expressions > 0 then list_ex (evaluateExpression task) expressions else True)"
| "evaluateExpression task (ExpressionNode GroupT _ _ _ _ None) = True"


subsection \<open>Time values\<close>

text \<open>
  The abstract operations of ECMAScript on time values. The local time zone is a fixed
  offset \<open>tza\<close> from UTC, in milliseconds (a zone without daylight saving transitions).
  Comparing two dates with \<open><\<close>, \<open><=\<close>, \<open>>\<close>, \<open>>=\<close> compares their time values; every
  comparison with NaN is false.
\<close>

definition msPerDay :: int where
  "msPerDay = 86400000"

definition Day :: "int \<Rightarrow> int" where
  "Day t = t div msPerDay"

definition MakeTime :: "int \<Rightarrow> int \<Rightarrow> int \<Rightarrow> int \<Rightarrow> int" where
  "MakeTime hour minute sec ms = hour * 3600000 + minute * 60000 + sec * 1000 + ms"

definition MakeDate :: "int \<Rightarrow> int \<Rightarrow> int" where
  "MakeDate day time = day * msPerDay + time"

definition LocalTime :: "int \<Rightarrow> int \<Rightarrow> int" where
  "LocalTime tza t = t + tza"

definition UTC :: "int \<Rightarrow> int \<Rightarrow> int" where
  "UTC tza t = t - tza"

definition TimeClip :: "int \<Rightarrow> Date" where
  "TimeClip t = (if \<bar>t\<bar> > 8640000000000000 then InvalidDate else Date t)"

fun date_gt :: "Date \<Rightarrow> Date \<Rightarrow> bool" where
  "date_gt (Date a) (Date b) = (a > b)"
| "date_gt _ _ = False"

fun date_ge :: "Date \<Rightarrow> Date \<Rightarrow> bool" where
  "date_ge (Date a) (Date b) = (a \<ge> b)"
| "date_ge _ _ = False"

fun date_le :: "Date \<Rightarrow> Date \<Rightarrow> bool" where
  "date_le (Date a) (Date b) = (a \<le> b)"
| "date_le _ _ = False"

text \<open>\<open>d.setHours(hour, min, sec, ms)\<close>, as the date it leaves in \<open>d\<close>.\<close>

definition setHours :: "int \<Rightarrow> Date \<Rightarrow> int \<Rightarrow> int \<Rightarrow> int \<Rightarrow> int \<Rightarrow> Date" where
  "setHours tza d hour minute sec ms =
     (case d of
        InvalidDate \<Rightarrow> InvalidDate
      | Date t \<Rightarrow>
          TimeClip (UTC tza (MakeDate (Day (LocalTime tza t)) (MakeTime hour minute sec ms))))"

subsection \<open>Calendar fields of a time value\<close>

text \<open>
  Year, month, day of the month and day of the week of a time value, as ECMAScript defines
  them: \<open>DayFromYear y\<close> is the day number of 1 January of year \<open>y\<close>, and the year of a day
  is the largest \<open>y\<close> with \<open>DayFromYear y\<close> not after it. The search for that year starts
  from a year that lies after the day and walks down.
\<close>

definition DayFromYear :: "int \<Rightarrow> int" where
  "DayFromYear y =
     365 * (y - 1970) + (y - 1969) div 4 - (y - 1901) div 100 + (y - 1601) div 400"

lemma div_step:
  fixes x k :: int
  assumes "0 < k"
  shows "x div k \<le> (x + 1) div k" and "(x + 1) div k \<le> x div k + 1"
proof -
  show "x div k \<le> (x + 1) div k" using assms by (simp add: zdiv_mono1)
  have "(x + 1) div k \<le> (x + k) div k" using assms by (intro zdiv_mono1) auto
  also have "\<dots> = x div k + 1" using assms by (simp add: div_add_self2)
  finally show "(x + 1) div k \<le> x div k + 1" .
qed

lemma year_step_arith:
  fixes a a' b b' c c' y :: int
  assumes "a \<le> a'" "a' \<le> a + 1" "b \<le> b'" "b' \<le> b + 1" "c \<le> c'" "c' \<le> c + 1"
  shows "364 \<le> (365 * (y + 1 - 1970) + a' - b' + c') - (365 * (y - 1970) + a - b + c)"
    and "(365 * (y + 1 - 1970) + a' - b' + c') - (365 * (y - 1970) + a - b + c) \<le> 367"
proof -
  show "364 \<le> (365 * (y + 1 - 1970) + a' - b' + c') - (365 * (y - 1970) + a - b + c)"
    using assms by (simp add: algebra_simps)
  show "(365 * (y + 1 - 1970) + a' - b' + c') - (365 * (y - 1970) + a - b + c) \<le> 367"
    using assms by (simp add: algebra_simps)
qed

lemma DayFromYear_succ:
  "364 \<le> DayFromYear (y + 1) - DayFromYear y" "DayFromYear (y + 1) - DayFromYear y \<le> 367"
proof -
  have e: "y + 1 - 1969 = (y - 1969) + 1" "y + 1 - 1901 = (y - 1901) + 1"
    "y + 1 - 1601 = (y - 1601) + 1"
    by simp_all
  show "364 \<le> DayFromYear (y + 1) - DayFromYear y"
    unfolding DayFromYear_def e
    by (rule year_step_arith(1)) (simp_all only: div_step)
  show "DayFromYear (y + 1) - DayFromYear y \<le> 367"
    unfolding DayFromYear_def e
    by (rule year_step_arith(2)) (simp_all only: div_step)
qed

lemma DayFromYear_step: "DayFromYear (y - 1) < DayFromYear y"
  using DayFromYear_succ(1)[of "y - 1"] by simp

function yearSearch :: "int \<Rightarrow> int \<Rightarrow> int" where
  "yearSearch y d = (if DayFromYear y \<le> d then y else yearSearch (y - 1) d)"
  by pat_completeness auto
termination yearSearch
  by (relation "measure (\<lambda>(y, d). nat (DayFromYear y - d))")
     (use DayFromYear_step in \<open>auto simp add: not_le\<close>)

declare yearSearch.simps [simp del]

definition yearAbove :: "int \<Rightarrow> int" where
  "yearAbove d = (if d \<ge> 0 then 1971 + d div 364 else 1971 + d div 367)"

definition YearFromDay :: "int \<Rightarrow> int" where
  "YearFromDay d = yearSearch (yearAbove d) d"

definition YearFromTime :: "int \<Rightarrow> int" where
  "YearFromTime t = YearFromDay (Day t)"

definition InLeapYear :: "int \<Rightarrow> int" where
  "InLeapYear t =
     (let y = YearFromTime t
      in if y mod 4 = 0 \<and> (y mod 100 \<noteq> 0 \<or> y mod 400 = 0) then 1 else 0)"

definition DayWithinYear :: "int \<Rightarrow> int" where
  "DayWithinYear t = Day t - DayFromYear (YearFromTime t)"

definition MonthFromTime :: "int \<Rightarrow> int" where
  "MonthFromTime t =
     (let d = DayWithinYear t; leap = InLeapYear t
      in if d < 31 then 0
         else if d < 59 + leap then 1
         else if d < 90 + leap then 2
         else if d < 120 + leap then 3
         else if d < 151 + leap then 4
         else if d < 181 + leap then 5
         else if d < 212 + leap then 6
         else if d < 243 + leap then 7
         else if d < 273 + leap then 8
         else if d < 304 + leap then 9
         else if d < 334 + leap then 10
         else 11)"

definition DateFromTime :: "int \<Rightarrow> int" where
  "DateFromTime t =
     (let d = DayWithinYear t; leap = InLeapYear t; m = MonthFromTime t
      in if m = 0 then d + 1
         else if m = 1 then d - 30
         else if m = 2 then d - 58 - leap
         else if m = 3 then d - 89 - leap
         else if m = 4 then d - 119 - leap
         else if m = 5 then d - 150 - leap
         else if m = 6 then d - 180 - leap
         else if m = 7 then d - 211 - leap
         else if m = 8 then d - 242 - leap
         else if m = 9 then d - 272 - leap
         else if m = 10 then d - 303 - leap
         else d - 333 - leap)"

definition WeekDay :: "int \<Rightarrow> int" where
  "WeekDay t = (Day t + 4) mod 7"

text \<open>
  \<open>MakeDay year month date\<close>: the day number of the given day, where the month may lie
  outside 0..11 and the date outside the month; both carry over.
\<close>

definition daysBeforeMonth :: "bool \<Rightarrow> int \<Rightarrow> int" where
  "daysBeforeMonth leap mn =
     (let l = (if leap then 1 else 0)
      in if mn = 0 then 0
         else if mn = 1 then 31
         else if mn = 2 then 59 + l
         else if mn = 3 then 90 + l
         else if mn = 4 then 120 + l
         else if mn = 5 then 151 + l
         else if mn = 6 then 181 + l
         else if mn = 7 then 212 + l
         else if mn = 8 then 243 + l
         else if mn = 9 then 273 + l
         else if mn = 10 then 304 + l
         else 334 + l)"

definition MakeDay :: "int \<Rightarrow> int \<Rightarrow> int \<Rightarrow> int" where
  "MakeDay year month date =
     (let ym = year + month div 12;
          mn = month mod 12;
          leap = (ym mod 4 = 0 \<and> (ym mod 100 \<noteq> 0 \<or> ym mod 400 = 0))
      in DayFromYear ym + daysBeforeMonth leap mn + date - 1)"

text \<open>
  The methods of a valid \<open>Date\<close>, on its time value, and \<open>new Date(year, month, date)\<close>,
  which reads its arguments in local time, takes a year from 0 to 99 as 1900 + year, and has
  \<open>date = 1\<close> when the argument is left out.
\<close>

definition getFullYear :: "int \<Rightarrow> int \<Rightarrow> int" where
  "getFullYear tza t = YearFromTime (LocalTime tza t)"

definition getMonth :: "int \<Rightarrow> int \<Rightarrow> int" where
  "getMonth tza t = MonthFromTime (LocalTime tza t)"

definition getDate :: "int \<Rightarrow> int \<Rightarrow> int" where
  "getDate tza t = DateFromTime (LocalTime tza t)"

definition getDay :: "int \<Rightarrow> int \<Rightarrow> int" where
  "getDay tza t = WeekDay (LocalTime tza t)"

definition newDate :: "int \<Rightarrow> int \<Rightarrow> int \<Rightarrow> int \<Rightarrow> int" where
  "newDate tza year month date =
     (let yr = (if 0 \<le> year \<and> year \<le> 99 then 1900 + year else year)
      in UTC tza (MakeDate (MakeDay yr month date) (MakeTime 0 0 0 0)))"

subsection \<open>extractBasicTasks\<close>

text \<open>
  \<open>toLowerCase\<close> on the letters A to Z. The program compares the result with \<open>x\<close> only,
  and no code unit other than \<open>x\<close> and \<open>X\<close> has the lower case \<open>x\<close>.
\<close>

definition toLowerCase :: "jsstring \<Rightarrow> jsstring" where
  "toLowerCase s = map (\<lambda>c. if 0x41 \<le> c \<and> c \<le> 0x5A then c + 0x20 else c) s"

text \<open>
  \<open>new Date(text)\<close> for a text of the shape \<open>dddd-dd-dd\<close>, the only texts that this
  program passes to it (group 1 of \<open>dueDateRegex\<close>). ECMAScript reads a date without a
  time as midnight UTC of that day. A month outside 1..12 or a day outside 1..31 gives an
  invalid date; a day up to 31 is accepted in every month and carries over into the next
  one (as V8 does, the engine of the host application).
\<close>

definition decimalValue :: "jsstring \<Rightarrow> int" where
  "decimalValue s = foldl (\<lambda>n c. 10 * n + (uint c - 48)) 0 s"

definition DateParse :: "jsstring \<Rightarrow> Date" where
  "DateParse s =
     (let year = decimalValue (take 4 s);
          month = decimalValue (take 2 (drop 5 s));
          day = decimalValue (take 2 (drop 8 s))
      in if 1 \<le> month \<and> month \<le> 12 \<and> 1 \<le> day \<and> day \<le> 31
         then TimeClip (MakeDate (MakeDay year (month - 1) day) (MakeTime 0 0 0 0))
         else InvalidDate)"

text \<open>The text of capture group \<open>n\<close> of a match, \<open>undefined\<close> when the group took no part.\<close>

definition matchGroup :: "jsstring \<Rightarrow> captures \<Rightarrow> nat \<Rightarrow> jsstring option" where
  "matchGroup s caps n = (case caps n of None \<Rightarrow> None | Some (a, b) \<Rightarrow> Some (substring s a b))"

text \<open>
  The body of the loop, from \<open>match[1]\<close> and \<open>match[2]\<close> to the task that is pushed. The
  text without its due date (\<open>taskText\<close>) is computed by the source and not used.
\<close>

definition taskOfMatch :: "jsstring \<Rightarrow> jsstring \<Rightarrow> jsstring \<Rightarrow> Task" where
  "taskOfMatch path m1 m2 =
     (let completed' = (toLowerCase m1 = u16 ''x'');
          rawText' = trim m2;
          dateMatch = regexExec dueDateRegex rawText' 0;
          dueDate' = (case dateMatch of
                        None \<Rightarrow> None
                      | Some (i, j, caps) \<Rightarrow>
                          (case matchGroup rawText' caps 1 of
                             None \<Rightarrow> None
                           | Some g \<Rightarrow> if g \<noteq> [] then Some (DateParse g) else None))
      in \<lparr>text = rawText', completed = completed', filePath = path, dueDate = dueDate',
          rawText = rawText'\<rparr>)"

text \<open>
  The loop \<open>while ((match = taskRegex.exec(content)) !== null)\<close> goes on from the end of
  each match (\<open>lastIndex\<close>). It ends because a match of \<open>taskRegex\<close> is never empty:
  \<open>minLen\<close> is the least number of code units that a match of an expression takes.
\<close>

fun minLen :: "regex \<Rightarrow> nat" where
  "minLen (Ch p) = 1"
| "minLen (Rep p mn mx) = mn"
| "minLen (Seq a b) = minLen a + minLen b"
| "minLen (Alt a b) = min (minLen a) (minLen b)"
| "minLen (Cap n a) = minLen a"
| "minLen Bol = 0"
| "minLen Eol = 0"
| "minLen Eps = 0"

lemma rmatch_bounds:
  "(j, c') \<in> set (rmatch r s (i, c)) \<Longrightarrow> i \<le> length s \<Longrightarrow> i + minLen r \<le> j \<and> j \<le> length s"
proof (induction r arbitrary: i c j c')
  case (Ch p)
  then show ?case by (auto split: if_splits)
next
  case (Rep p mn mx)
  have "length (takeWhile p (drop i s)) \<le> length s - i"
    by (metis length_drop length_takeWhile_le)
  with Rep show ?case by (auto simp add: Let_def split: option.splits)
next
  case (Seq a b)
  from Seq(3) obtain j1 c1 where 1: "(j1, c1) \<in> set (rmatch a s (i, c))"
    and 2: "(j, c') \<in> set (rmatch b s (j1, c1))" by auto
  from Seq(1)[OF 1 Seq(4)] have a: "i + minLen a \<le> j1" "j1 \<le> length s" by auto
  from Seq(2)[OF 2 a(2)] a show ?case by auto
next
  case (Alt a b)
  then show ?case by fastforce
next
  case (Cap n a)
  then show ?case by fastforce
next
  case Bol
  then show ?case by (auto split: if_splits)
next
  case Eol
  then show ?case by (auto split: if_splits)
next
  case Eps
  then show ?case by auto
qed

lemma find_SomeD: "List.find P xs = Some x \<Longrightarrow> P x \<and> x \<in> set xs"
  by (induction xs) (auto split: if_splits)

lemma regexExec_bounds:
  assumes "regexExec r s lastIndex = Some (i, j, caps)"
  shows "lastIndex + minLen r \<le> j \<and> j \<le> length s"
proof -
  from assms obtain k where k: "List.find (\<lambda>i. rmatch r s (i, Map.empty) \<noteq> []) [lastIndex ..< length s + 1] = Some k"
    and r: "(i, j, caps) = (k, hd (rmatch r s (k, Map.empty)))"
    by (auto simp add: regexExec_def split: option.splits)
  from find_SomeD[OF k] have ne: "rmatch r s (k, Map.empty) \<noteq> []"
    and kb: "lastIndex \<le> k" "k \<le> length s"
    by auto
  from r ne have "(j, caps) \<in> set (rmatch r s (k, Map.empty))"
    by (metis Pair_inject hd_in_set)
  from rmatch_bounds[OF this kb(2)] kb(1) show ?thesis by auto
qed

lemma minLen_taskRegex: "minLen taskRegex = 5"
  by (simp add: taskRegex_def)

function extractLoop :: "jsstring \<Rightarrow> jsstring \<Rightarrow> nat \<Rightarrow> Task list" where
  "extractLoop path content lastIndex =
     (case regexExec taskRegex content lastIndex of
        None \<Rightarrow> []
      | Some (i, j, caps) \<Rightarrow>
          (case (matchGroup content caps 1, matchGroup content caps 2) of
             (Some m1, Some m2) \<Rightarrow>
               (if m1 \<noteq> [] \<and> m2 \<noteq> [] then [taskOfMatch path m1 m2] else [])
           | _ \<Rightarrow> [])
          @ extractLoop path content j)"
  by pat_completeness auto
termination extractLoop
proof (relation "measure (\<lambda>(path, content, lastIndex). length content + 1 - lastIndex)", goal_cases)
  case 1
  show ?case by simp
next
  case (2 path content lastIndex x2 i y j caps)
  then have "regexExec taskRegex content lastIndex = Some (i, j, caps)" by simp
  from regexExec_bounds[OF this] have "lastIndex < j" "j \<le> length content"
    by (simp_all add: minLen_taskRegex)
  then show ?case by auto
qed

declare extractLoop.simps [simp del]

text \<open>
  The markdown files of the vault, each with its path and the content that \<open>vault.read\<close>
  returns, or nothing when the read fails (the error is logged and the file skipped).
\<close>

definition extractBasicTasks :: "(jsstring \<times> jsstring option) list \<Rightarrow> Task list" where
  "extractBasicTasks allFiles =
     concat (map (\<lambda>(path, read).
        case read of None \<Rightarrow> [] | Some content \<Rightarrow> extractLoop path content 0) allFiles)"

subsection \<open>Settings (settings.ts)\<close>

record NoteTemplateSettings =
  savePath :: jsstring
  templatePath :: jsstring
  fileNameFormat :: jsstring

record TaskFilterSettings =
  customFilter :: jsstring

record MyPluginSettings =
  dailyNote :: NoteTemplateSettings
  weeklyNote :: NoteTemplateSettings
  monthlyNote :: NoteTemplateSettings
  quarterlyNote :: NoteTemplateSettings
  yearlyNote :: NoteTemplateSettings
  taskFilter :: TaskFilterSettings

subsection \<open>filterTasks\<close>

definition filterTasks :: "int \<Rightarrow> Task list \<Rightarrow> MyPluginSettings \<Rightarrow> Date \<Rightarrow> Task list" where
  "filterTasks tza tasks settings filterDate =
     (let customFilter = customFilter (taskFilter settings);
          expression = parseCustomFilter customFilter
      in filter (\<lambda>task.
           if (case dueDate task of
                 Some due \<Rightarrow> date_gt due (setHours tza filterDate 23 59 59 999)
               | None \<Rightarrow> False)
           then False
           else (case expression of
                   None \<Rightarrow> True
                 | Some e \<Rightarrow> evaluateExpression task e)) tasks)"

subsection \<open>updateTaskInNote\<close>

text \<open>
  The regular expression is built from a template literal,
  \<^verbatim>\<open>new RegExp(`^\s*-\s*\[(.)\]\s*${escapeRegExp(task.rawText)}`, 'm')\<close>.
  In a template literal that is not \<open>String.raw\<close>, a backslash before \<open>s\<close>, \<open>[\<close> or \<open>]\<close>
  is dropped, so that the pattern text handed to \<open>RegExp\<close> is
  \<^verbatim>\<open>^s*-s*[(.)]s*\<close> followed by the escaped raw text: the start of a line, any number of
  letters \<open>s\<close>, a hyphen, any number of letters \<open>s\<close>, one character of the class \<open>[(.)]\<close>,
  any number of letters \<open>s\<close>, then the raw text. This pattern has no capture group.
\<close>

definition updateTaskRegex :: "jsstring \<Rightarrow> regex" where
  "updateTaskRegex raw =
     seqs ([Bol, Rep (isChar 0x73) 0 None, Ch (isChar 0x2D), Rep (isChar 0x73) 0 None,
            Ch (\<lambda>c. c = 0x28 \<or> c = 0x2E \<or> c = 0x29), Rep (isChar 0x73) 0 None]
           @ literalPattern (escapeRegExp raw))"

text \<open>
  The replacement callback \<open>(match, status) => ...\<close>. \<open>replace\<close> calls it with the matched
  text, then one argument for each capture group, then the offset of the match: the pattern
  has no group, so the parameter \<open>status\<close> receives the offset, a number.
\<close>

definition statusCallback :: "bool \<Rightarrow> jsstring \<Rightarrow> nat \<Rightarrow> jsstring" where
  "statusCallback completed' match status =
     replaceFirst match (u16 ''['' @ numberToString status @ u16 '']'')
       (if completed' then u16 ''[x]'' else u16 ''[ ]'')"

definition newContent :: "jsstring \<Rightarrow> Task \<Rightarrow> bool \<Rightarrow> jsstring" where
  "newContent content task completed' =
     (case regexExec (updateTaskRegex (rawText task)) content 0 of
        None \<Rightarrow> content
      | Some (i, j, caps) \<Rightarrow>
          take i content @ statusCallback completed' (substring content i j) i @ drop j content)"

text \<open>The vault maps the path of a file to its content.\<close>

definition updateTaskInNote ::
  "(jsstring \<rightharpoonup> jsstring) \<Rightarrow> Task \<Rightarrow> bool \<Rightarrow> (jsstring \<rightharpoonup> jsstring)" where
  "updateTaskInNote vault task completed' =
     (case vault (filePath task) of
        None \<Rightarrow> vault
      | Some content \<Rightarrow> vault(filePath task \<mapsto> newContent content task completed'))"

section \<open>The range filter of the calendar view (views/CalendarView.ts)\<close>

datatype TaskStatusFilter = StatusAll | StatusTodo | StatusDone

text \<open>
  The two lists that \<open>renderTaskListByDateRange\<close> computes from the extracted tasks: the
  tasks of the date range, then those that the status filter of the view keeps.
\<close>

definition filteredByDateRange :: "Task list \<Rightarrow> Date \<Rightarrow> Date \<Rightarrow> Task list" where
  "filteredByDateRange allTasks startDate endDate =
     filter (\<lambda>task.
        case dueDate task of
          None \<Rightarrow> False
        | Some due \<Rightarrow> date_ge due startDate \<and> date_le due endDate) allTasks"

definition renderTaskListByDateRange ::
  "TaskStatusFilter \<Rightarrow> Task list \<Rightarrow> Date \<Rightarrow> Date \<Rightarrow> Task list" where
  "renderTaskListByDateRange taskStatusFilter allTasks startDate endDate =
     (let filteredByDateRange = filteredByDateRange allTasks startDate endDate
      in if taskStatusFilter = StatusTodo
         then filter (\<lambda>task. \<not> completed task) filteredByDateRange
         else if taskStatusFilter = StatusDone
         then filter (\<lambda>task. completed task) filteredByDateRange
         else filteredByDateRange)"

section \<open>Calendar arithmetic (utils/dateUtils.ts)\<close>

text \<open>
  The functions of \<open>dateUtils\<close> on a valid date, given by its time value. \<open>Math.ceil\<close>
  of a quotient by 7 is written with integer division.
\<close>

subsection \<open>ISO weeks\<close>

text \<open>
  Modelled from the spec: the methods \<open>isoWeek\<close> and \<open>isoWeekYear\<close> of the dayjs library
  (its \<open>isoWeek\<close> plugin), which \<open>getWeekInfo\<close> calls and which are not part of the sources.
  The spec (4.1) has: ISO-8601 week numbering, Monday-start, the week containing the
  year's first Thursday is week 1. So: a week runs from Monday to Sunday; its year is the year
  of its Thursday; its number counts the weeks from the week of the first Thursday of that
  year. Days are day numbers in local time; \<open>isoWeekday\<close> is 1 for Monday up to 7 for
  Sunday (day 0, 1 January 1970, is a Thursday).
\<close>

definition isoWeekday :: "int \<Rightarrow> int" where
  "isoWeekday day = (day + 3) mod 7 + 1"

definition weekThursday :: "int \<Rightarrow> int" where
  "weekThursday day = day - isoWeekday day + 4"

definition firstThursday :: "int \<Rightarrow> int" where
  "firstThursday y = (let jan1 = DayFromYear y in jan1 + (4 - isoWeekday jan1) mod 7)"

definition isoWeekYearOfDay :: "int \<Rightarrow> int" where
  "isoWeekYearOfDay day = YearFromDay (weekThursday day)"

definition isoWeekOfDay :: "int \<Rightarrow> int" where
  "isoWeekOfDay day = (weekThursday day - firstThursday (isoWeekYearOfDay day)) div 7 + 1"

text \<open>
  Modelled from the spec: \<open>dayjs(date).isoWeek()\<close>, the ISO week number of the date in
  local time.
\<close>

definition isoWeek :: "int \<Rightarrow> int \<Rightarrow> int" where
  "isoWeek tza t = isoWeekOfDay (Day (LocalTime tza t))"

text \<open>
  Modelled from the spec: \<open>dayjs(date).isoWeekYear()\<close>, the year that the ISO week of the
  date belongs to.
\<close>

definition isoWeekYear :: "int \<Rightarrow> int \<Rightarrow> int" where
  "isoWeekYear tza t = isoWeekYearOfDay (Day (LocalTime tza t))"

subsection \<open>getWeekInfo, getQuarter, formatDate\<close>

record WeekInfo =
  week :: int
  year :: int

definition getWeekInfo :: "int \<Rightarrow> int \<Rightarrow> WeekInfo" where
  "getWeekInfo tza date = \<lparr>week = isoWeek tza date, year = isoWeekYear tza date\<rparr>"

definition getWeekNumber :: "int \<Rightarrow> int \<Rightarrow> int" where
  "getWeekNumber tza date = week (getWeekInfo tza date)"

text \<open>\<open>dayjs(date).month()\<close> is the month of the date in local time, from 0.\<close>

definition getQuarter :: "int \<Rightarrow> int \<Rightarrow> int" where
  "getQuarter tza date = (getMonth tza date + 3) div 3"

text \<open>
  The generic pass \<open>d.format(result)\<close> belongs to dayjs; it is the parameter
  \<open>dayjsFormat\<close>, from the date and the format string to the formatted text.
\<close>

definition formatDate ::
  "(int \<Rightarrow> jsstring \<Rightarrow> jsstring) \<Rightarrow> int \<Rightarrow> int \<Rightarrow> jsstring \<Rightarrow> jsstring" where
  "formatDate dayjsFormat tza date format =
     (let weekInfo = getWeekInfo tza date;
          week = padStart (intToString (week weekInfo)) 2 0x30;
          weekYear = year weekInfo;
          result = replaceFirst
                     (replaceFirst
                        (replaceFirst format (u16 ''GGGG'') (intToString weekYear))
                        (u16 ''WW'') week)
                     (u16 ''Q'') (intToString (getQuarter tza date))
      in dayjsFormat date result)"

subsection \<open>The month grid\<close>

definition getFirstDayOfMonth :: "int \<Rightarrow> int \<Rightarrow> int" where
  "getFirstDayOfMonth tza date =
     (let firstDay = newDate tza (getFullYear tza date) (getMonth tza date) 1
      in getDay tza firstDay)"

definition getDaysInMonth :: "int \<Rightarrow> int \<Rightarrow> int" where
  "getDaysInMonth tza date =
     getDate tza (newDate tza (getFullYear tza date) (getMonth tza date + 1) 0)"

definition getPrevMonthDaysToShow :: "int \<Rightarrow> int" where
  "getPrevMonthDaysToShow firstDayOfMonth =
     (if firstDayOfMonth = 0 then 6 else firstDayOfMonth - 1)"

definition getCalendarRows :: "int \<Rightarrow> int \<Rightarrow> int" where
  "getCalendarRows prevMonthDaysToShow daysInMonth =
     - ((- (prevMonthDaysToShow + daysInMonth)) div 7)"

definition getCellDate :: "int \<Rightarrow> int \<Rightarrow> int \<Rightarrow> int \<Rightarrow> int \<times> bool" where
  "getCellDate tza rowIndex dayIndex currentDate =
     (let currentYear = getFullYear tza currentDate;
          currentMonth = getMonth tza currentDate;
          firstDayOfMonth = getFirstDayOfMonth tza currentDate;
          prevMonthDaysToShow = getPrevMonthDaysToShow firstDayOfMonth;
          daysInMonth = getDaysInMonth tza currentDate;
          totalCells = rowIndex * 7 + dayIndex
      in if totalCells < prevMonthDaysToShow
         then (let prevMonth = currentMonth - 1;
                   prevMonthYear = (if currentMonth = 0 then currentYear - 1 else currentYear);
                   prevMonthDays = getDaysInMonth tza (newDate tza prevMonthYear prevMonth 1);
                   day = prevMonthDays - prevMonthDaysToShow + totalCells + 1
               in (newDate tza prevMonthYear prevMonth day, True))
         else if totalCells < prevMonthDaysToShow + daysInMonth
         then (let day = totalCells - prevMonthDaysToShow + 1
               in (newDate tza currentYear currentMonth day, False))
         else (let nextMonth = currentMonth + 1;
                   nextMonthYear = (if currentMonth = 11 then currentYear + 1 else currentYear);
                   day = totalCells - prevMonthDaysToShow - daysInMonth + 1
               in (newDate tza nextMonthYear nextMonth day, True)))"

record CalendarMonthData =
  currentYear :: int
  currentMonth :: int
  firstDayOfMonth :: int
  daysInMonth :: int
  prevMonthDaysToShow :: int
  rowsNeeded :: int
  lastDayOfPrevMonth :: int
  firstDayOfNextMonth :: int

definition getCalendarMonthData :: "int \<Rightarrow> int \<Rightarrow> CalendarMonthData" where
  "getCalendarMonthData tza currentDate =
     (let year = getFullYear tza currentDate;
          month = getMonth tza currentDate;
          fd = getFirstDayOfMonth tza currentDate;
          dim = getDaysInMonth tza currentDate;
          prev = getPrevMonthDaysToShow fd;
          rows = getCalendarRows prev dim
      in \<lparr>currentYear = year, currentMonth = month, firstDayOfMonth = fd, daysInMonth = dim,
          prevMonthDaysToShow = prev, rowsNeeded = rows,
          lastDayOfPrevMonth = newDate tza year month 0,
          firstDayOfNextMonth = newDate tza year (month + 1) 1\<rparr>)"

definition getMonthDates :: "int \<Rightarrow> int \<Rightarrow> (int \<times> bool) list list" where
  "getMonthDates tza currentDate =
     (let data = getCalendarMonthData tza currentDate
      in map (\<lambda>row. map (\<lambda>day. getCellDate tza (int row) (int day) currentDate) [0 ..< 7])
             [0 ..< nat (rowsNeeded data)])"

section \<open>Facts about strings and the tokenizer\<close>

lemma startsWith_prefix: "startsWith s p = prefix p s"
  unfolding startsWith_def prefix_def
  by (metis append_eq_conv_conj)

lemma str_includes_sublist: "str_includes s t = sublist t s"
proof (induction s)
  case Nil
  then show ?case by simp
next
  case (Cons c cs)
  show ?case
    by (simp add: Cons.IH startsWith_prefix sublist_Cons_right)
qed

lemma trim_Nil_iff: "(trim s = []) = (\<forall>c\<in>set s. isWhiteSpace c)"
proof -
  have "(\<forall>x\<in>set (dropWhile isWhiteSpace s). isWhiteSpace x) = (dropWhile isWhiteSpace s = [])"
    using hd_dropWhile[of isWhiteSpace s]
    by (cases "dropWhile isWhiteSpace s") (auto dest: set_dropWhileD)
  then have "(trim s = []) = (dropWhile isWhiteSpace s = [])"
    by (simp add: trim_def)
  then show ?thesis by simp
qed

text \<open>A character that is not white space ends up in one of the pieces.\<close>

lemma splitWs_covers:
  "\<not> isWhiteSpace x \<Longrightarrow> x \<in> set cur \<union> set s \<Longrightarrow> \<exists>t\<in>set (splitWs cur s). x \<in> set t"
proof (induction cur s rule: splitWs.induct)
  case (1 cur)
  then show ?case by simp
next
  case (2 cur c cs)
  show ?case
  proof (cases "isWhiteSpace c")
    case True
    show ?thesis
    proof (cases "x \<in> set cur")
      case True
      then show ?thesis using \<open>isWhiteSpace c\<close> by simp
    next
      case False
      with 2(3,4) True have "x \<in> set cs" by auto
      with 2(3) have "x \<in> set (dropWhile isWhiteSpace cs)"
        by (metis Un_iff set_append set_takeWhileD takeWhile_dropWhile_id)
      with 2(1)[OF True 2(3)] True show ?thesis by auto
    qed
  next
    case False
    with 2(2)[OF False 2(3)] 2(4) show ?thesis by auto
  qed
qed

lemma replaceAllChar_keeps_visible:
  assumes "\<exists>x\<in>set s. \<not> isWhiteSpace x" and "\<not> isWhiteSpace c" and "c \<in> set r"
  shows "\<exists>y\<in>set (replaceAllChar c r s). \<not> isWhiteSpace y"
proof -
  from assms(1) obtain x where x: "x \<in> set s" "\<not> isWhiteSpace x" by auto
  show ?thesis
  proof (cases "x = c")
    case True
    with x(1) assms(3) have "c \<in> set (replaceAllChar c r s)"
      by (auto simp add: replaceAllChar_def)
    with assms(2) show ?thesis by auto
  next
    case False
    with x(1) have "x \<in> set (replaceAllChar c r s)"
      by (auto simp add: replaceAllChar_def)
    with x(2) show ?thesis by auto
  qed
qed

lemma tokenize_nonempty:
  assumes "trim s \<noteq> []"
  shows "tokenizeFilter s \<noteq> []"
proof -
  define s1 where "s1 = replaceAllChar 0x28 (u16 '' ( '') s"
  define s2 where "s2 = replaceAllChar 0x29 (u16 '' ) '') s1"
  from assms have "\<exists>x\<in>set s. \<not> isWhiteSpace x"
    by (auto simp add: trim_Nil_iff)
  then have "\<exists>y\<in>set s1. \<not> isWhiteSpace y"
    unfolding s1_def
    by (rule replaceAllChar_keeps_visible) (simp_all add: isWhiteSpace_def u16_def)
  then have "\<exists>z\<in>set s2. \<not> isWhiteSpace z"
    unfolding s2_def
    by (rule replaceAllChar_keeps_visible) (simp_all add: isWhiteSpace_def u16_def)
  then obtain z where z: "z \<in> set s2" "\<not> isWhiteSpace z" by auto
  from splitWs_covers[OF z(2), of "[]" s2] z(1)
  obtain t where t: "t \<in> set (splitWs [] s2)" "z \<in> set t"
    by auto
  from t(2) z(2) have "trim t \<noteq> []" by (auto simp add: trim_Nil_iff)
  with t(1) have "t \<in> set (tokenizeFilter s)"
    by (simp add: tokenizeFilter_def s1_def s2_def)
  then show ?thesis by auto
qed

section \<open>The filter expression engine\<close>




text \<open>
  C2. A tag rule matches a task exactly when the raw text of the task contains \<open>#\<close>
  followed by the value of the rule; a path rule matches exactly when the path of the task's
  file is the value or starts with the value followed by \<open>/\<close>. A rule node evaluates to the
  match test for an include rule and to its negation for an exclude rule.
\<close>

theorem rule_match_semantics:
  "(isTag rule \<longrightarrow>
      matchFilterRule task rule = sublist (u16 ''#'' @ value rule) (rawText task))
   \<and> (\<not> isTag rule \<longrightarrow>
      matchFilterRule task rule
        = (filePath task = value rule \<or> prefix (value rule @ u16 ''/'') (filePath task)))
   \<and> (type rule = Exclude \<longrightarrow>
      evaluateExpression task (ExpressionNode RuleT (Some rule) op0 l0 r0 es0)
        = (\<not> matchFilterRule task rule))
   \<and> (type rule = Include \<longrightarrow>
      evaluateExpression task (ExpressionNode RuleT (Some rule) op0 l0 r0 es0)
        = matchFilterRule task rule)"
  by (auto simp add: matchFilterRule_def str_includes_sublist startsWith_prefix)

theorem rule_match_semantics_witness:
  "isTag \<lparr>type = Exclude, value = u16 ''work'', isTag = True\<rparr>
   \<and> type \<lparr>type = Exclude, value = u16 ''work'', isTag = True\<rparr> = Exclude
   \<and> matchFilterRule
        \<lparr>text = u16 ''call #work'', completed = False, filePath = u16 ''a/n.md'',
          dueDate = None, rawText = u16 ''call #work''\<rparr>
        \<lparr>type = Exclude, value = u16 ''work'', isTag = True\<rparr>
   \<and> \<not> evaluateExpression
        \<lparr>text = u16 ''call #work'', completed = False, filePath = u16 ''a/n.md'',
          dueDate = None, rawText = u16 ''call #work''\<rparr>
        (mkRule \<lparr>type = Exclude, value = u16 ''work'', isTag = True\<rparr>)
   \<and> \<not> isTag \<lparr>type = Include, value = u16 ''a'', isTag = False\<rparr>
   \<and> type \<lparr>type = Include, value = u16 ''a'', isTag = False\<rparr> = Include
   \<and> evaluateExpression
        \<lparr>text = u16 ''call #work'', completed = False, filePath = u16 ''a/n.md'',
          dueDate = None, rawText = u16 ''call #work''\<rparr>
        (mkRule \<lparr>type = Include, value = u16 ''a'', isTag = False\<rparr>)"
  using rule_match_semantics
    [of "\<lparr>type = Exclude, value = u16 ''work'', isTag = True\<rparr>"
        "\<lparr>text = u16 ''call #work'', completed = False, filePath = u16 ''a/n.md'',
          dueDate = None, rawText = u16 ''call #work''\<rparr>" None None None None]
    rule_match_semantics
    [of "\<lparr>type = Include, value = u16 ''a'', isTag = False\<rparr>"
        "\<lparr>text = u16 ''call #work'', completed = False, filePath = u16 ''a/n.md'',
          dueDate = None, rawText = u16 ''call #work''\<rparr>" None None None None]
  by (simp add: mkRule_def matchFilterRule_def u16_def startsWith_def)

text \<open>
  C6. \<open>parseCustomFilter\<close> returns for every filter string: nothing for a blank string, and
  otherwise the tree that \<open>parseTokens\<close> builds from the tokens. The parsing functions are
  total (their recursion was shown to end above) and read no token beyond the end of the
  array without the guard for \<open>undefined\<close>. Malformed strings give a partial tree: an
  unclosed parenthesis closes at the end of the input, a trailing operator takes an empty path
  rule as its right operand, and the parser stops at a closing parenthesis that was never
  opened.
\<close>

theorem parseCustomFilter_total:
  "(trim s = [] \<longrightarrow> parseCustomFilter s = None)
   \<and> (trim s \<noteq> [] \<longrightarrow>
        (\<exists>node. parseCustomFilter s = Some node \<and> node = parseTokens (tokenizeFilter s)))
   \<and> parseCustomFilter (u16 ''(#a'')
        = Some (mkGroup [mkRule \<lparr>type = Include, value = u16 ''a'', isTag = True\<rparr>])
   \<and> parseCustomFilter (u16 ''#a and'')
        = Some (mkLogical And (mkRule \<lparr>type = Include, value = u16 ''a'', isTag = True\<rparr>)
                              (mkRule \<lparr>type = Include, value = [], isTag = False\<rparr>))
   \<and> parseCustomFilter (u16 ''#a ) #b'')
        = Some (mkRule \<lparr>type = Include, value = u16 ''a'', isTag = True\<rparr>)"
proof -
  have a: "trim s = [] \<longrightarrow> parseCustomFilter s = None"
    by (simp add: parseCustomFilter_def)
  have b: "trim s \<noteq> [] \<longrightarrow>
        (\<exists>node. parseCustomFilter s = Some node \<and> node = parseTokens (tokenizeFilter s))"
    using tokenize_nonempty[of s] by (simp add: parseCustomFilter_def Let_def)
  have c: "parseCustomFilter (u16 ''(#a'')
        = Some (mkGroup [mkRule \<lparr>type = Include, value = u16 ''a'', isTag = True\<rparr>])"
    by (simp add: parseCustomFilter_def tokenizeFilter_def replaceAllChar_def u16_def
        isWhiteSpace_def trim_def parseTokens_def tokenAt_def parseRule_def startsWith_def)
  have d: "parseCustomFilter (u16 ''#a and'')
        = Some (mkLogical And (mkRule \<lparr>type = Include, value = u16 ''a'', isTag = True\<rparr>)
                              (mkRule \<lparr>type = Include, value = [], isTag = False\<rparr>))"
    by (simp add: parseCustomFilter_def tokenizeFilter_def replaceAllChar_def u16_def
        isWhiteSpace_def trim_def parseTokens_def tokenAt_def parseRule_def startsWith_def)
  have e: "parseCustomFilter (u16 ''#a ) #b'')
        = Some (mkRule \<lparr>type = Include, value = u16 ''a'', isTag = True\<rparr>)"
    by (simp add: parseCustomFilter_def tokenizeFilter_def replaceAllChar_def u16_def
        isWhiteSpace_def trim_def parseTokens_def tokenAt_def parseRule_def startsWith_def)
  show ?thesis using a b c d e by simp
qed

theorem parseCustomFilter_total_witness:
  "trim (u16 ''  '') = [] \<and> parseCustomFilter (u16 ''  '') = None
   \<and> trim (u16 ''((#a or'') \<noteq> []
   \<and> (\<exists>node. parseCustomFilter (u16 ''((#a or'') = Some node)"
  using parseCustomFilter_total[of "u16 ''  ''"] parseCustomFilter_total[of "u16 ''((#a or''"]
  by (simp add: trim_def u16_def isWhiteSpace_def)


section \<open>The task filter pipeline\<close>

text \<open>
  C3, at a task whose due date is an invalid date. The line \<open>- [ ] pay @2024-13-45\<close> gives
  such a task: the text after \<open>@\<close> has the shape of a date, and no date has month 13. The
  task has a due date, the due date is not \<open><=\<close> the end of the cutoff day (no comparison
  with NaN holds), and \<open>filterTasks\<close> keeps the task.
\<close>

theorem filterTasks_invalid_due_counterexample:
  "extractBasicTasks [(u16 ''n.md'', Some (u16 ''- [ ] pay @2024-13-45''))]
   = [\<lparr>text = u16 ''pay @2024-13-45'', completed = False, filePath = u16 ''n.md'',
        dueDate = Some InvalidDate, rawText = u16 ''pay @2024-13-45''\<rparr>]
   \<and> filterTasks 0
     [\<lparr>text = u16 ''pay @2024-13-45'', completed = False, filePath = u16 ''n.md'',
       dueDate = Some InvalidDate, rawText = u16 ''pay @2024-13-45''\<rparr>]
     \<lparr>dailyNote = \<lparr>savePath = [], templatePath = [], fileNameFormat = []\<rparr>,
      weeklyNote = \<lparr>savePath = [], templatePath = [], fileNameFormat = []\<rparr>,
      monthlyNote = \<lparr>savePath = [], templatePath = [], fileNameFormat = []\<rparr>,
      quarterlyNote = \<lparr>savePath = [], templatePath = [], fileNameFormat = []\<rparr>,
      yearlyNote = \<lparr>savePath = [], templatePath = [], fileNameFormat = []\<rparr>,
      taskFilter = \<lparr>customFilter = []\<rparr>\<rparr>
     (Date 1710460800000)
   = [\<lparr>text = u16 ''pay @2024-13-45'', completed = False, filePath = u16 ''n.md'',
       dueDate = Some InvalidDate, rawText = u16 ''pay @2024-13-45''\<rparr>]
   \<and> Some InvalidDate \<noteq> (None :: Date option)
   \<and> \<not> date_le InvalidDate (setHours 0 (Date 1710460800000) 23 59 59 999)"
proof -
  have "extractBasicTasks [(u16 ''n.md'', Some (u16 ''- [ ] pay @2024-13-45''))]
   = [\<lparr>text = u16 ''pay @2024-13-45'', completed = False, filePath = u16 ''n.md'',
        dueDate = Some InvalidDate, rawText = u16 ''pay @2024-13-45''\<rparr>]"
    by code_simp
  then show ?thesis
    by (simp add: filterTasks_def parseCustomFilter_def trim_def)
qed

text \<open>
  C3, as the code has it. \<open>filterTasks\<close> keeps a task exactly when it has no due date later
  than the end of the cutoff day, and the filter string is blank or its expression is true of
  the task. The end of the cutoff day is 23:59:59.999 of the local day of the cutoff date. For
  a due date and a cutoff that are both valid dates, not being later is being \<open><=\<close>: a task
  due at that very millisecond is kept and a task due one millisecond later is not.
\<close>

theorem filterTasks_keeps:
  "filterTasks tza tasks settings filterDate =
     filter (\<lambda>task.
        (dueDate task = None \<or>
         (\<exists>due. dueDate task = Some due
             \<and> \<not> date_gt due (setHours tza filterDate 23 59 59 999)))
        \<and> (trim (customFilter (taskFilter settings)) = [] \<or>
           (\<exists>e. parseCustomFilter (customFilter (taskFilter settings)) = Some e
              \<and> evaluateExpression task e))) tasks
   \<and> (\<forall>t e. filterDate = Date t \<and> setHours tza filterDate 23 59 59 999 = Date e \<longrightarrow>
         LocalTime tza e = Day (LocalTime tza t) * msPerDay + 86399999
         \<and> (\<forall>due. (\<not> date_gt (Date due) (Date e)) = (due \<le> e)))"
proof -
  let ?cf = "customFilter (taskFilter settings)"
  have f: "(case parseCustomFilter ?cf of None \<Rightarrow> True | Some e \<Rightarrow> evaluateExpression task e)
      = (trim ?cf = [] \<or> (\<exists>e. parseCustomFilter ?cf = Some e \<and> evaluateExpression task e))"
    for task
  proof (cases "trim ?cf = []")
    case True
    then show ?thesis by (simp add: parseCustomFilter_def)
  next
    case False
    then have "tokenizeFilter ?cf \<noteq> []" by (rule tokenize_nonempty)
    with False show ?thesis by (simp add: parseCustomFilter_def Let_def)
  qed
  have d: "(\<not> (case dueDate task of
                  Some due \<Rightarrow> date_gt due (setHours tza filterDate 23 59 59 999)
                | None \<Rightarrow> False))
      = (dueDate task = None \<or>
         (\<exists>due. dueDate task = Some due
             \<and> \<not> date_gt due (setHours tza filterDate 23 59 59 999)))"
    for task
    by (cases "dueDate task") simp_all
  have 1: "filterTasks tza tasks settings filterDate =
     filter (\<lambda>task.
        (dueDate task = None \<or>
         (\<exists>due. dueDate task = Some due
             \<and> \<not> date_gt due (setHours tza filterDate 23 59 59 999)))
        \<and> (trim ?cf = [] \<or>
           (\<exists>e. parseCustomFilter ?cf = Some e \<and> evaluateExpression task e))) tasks"
    unfolding filterTasks_def Let_def
    by (rule filter_cong[OF refl]) (simp only: f[symmetric] d[symmetric] split: if_splits, simp)
  have 2: "LocalTime tza e = Day (LocalTime tza t) * msPerDay + 86399999"
    if "setHours tza (Date t) 23 59 59 999 = Date e" for t e
    using that
    by (simp add: setHours_def TimeClip_def UTC_def LocalTime_def MakeDate_def MakeTime_def
        split: if_splits)
  show ?thesis using 1 2 by auto
qed

theorem filterTasks_keeps_witness:
  "Date 1710468000000 = Date 1710468000000
   \<and> setHours 28800000 (Date 1710468000000) 23 59 59 999 = Date 1710518399999
   \<and> LocalTime 28800000 1710518399999 = Day (LocalTime 28800000 1710468000000) * msPerDay + 86399999
   \<and> filterTasks 28800000
       [\<lparr>text = u16 ''a'', completed = False, filePath = u16 ''n.md'',
         dueDate = Some (Date 1710518399999), rawText = u16 ''a''\<rparr>,
        \<lparr>text = u16 ''b'', completed = False, filePath = u16 ''n.md'',
         dueDate = Some (Date 1710518400000), rawText = u16 ''b''\<rparr>,
        \<lparr>text = u16 ''c'', completed = False, filePath = u16 ''n.md'',
         dueDate = None, rawText = u16 ''c''\<rparr>]
       \<lparr>dailyNote = \<lparr>savePath = [], templatePath = [], fileNameFormat = []\<rparr>,
        weeklyNote = \<lparr>savePath = [], templatePath = [], fileNameFormat = []\<rparr>,
        monthlyNote = \<lparr>savePath = [], templatePath = [], fileNameFormat = []\<rparr>,
        quarterlyNote = \<lparr>savePath = [], templatePath = [], fileNameFormat = []\<rparr>,
        yearlyNote = \<lparr>savePath = [], templatePath = [], fileNameFormat = []\<rparr>,
        taskFilter = \<lparr>customFilter = u16 '' ''\<rparr>\<rparr>
       (Date 1710468000000)
     = [\<lparr>text = u16 ''a'', completed = False, filePath = u16 ''n.md'',
         dueDate = Some (Date 1710518399999), rawText = u16 ''a''\<rparr>,
        \<lparr>text = u16 ''c'', completed = False, filePath = u16 ''n.md'',
         dueDate = None, rawText = u16 ''c''\<rparr>]"
proof -
  have e: "setHours 28800000 (Date 1710468000000) 23 59 59 999 = Date 1710518399999"
    by (simp add: setHours_def TimeClip_def UTC_def LocalTime_def MakeDate_def MakeTime_def
        Day_def msPerDay_def)
  have b: "trim (u16 '' '') = []"
    by (simp add: trim_def u16_def isWhiteSpace_def)
  show ?thesis
    using filterTasks_keeps
      [of 28800000
        "[\<lparr>text = u16 ''a'', completed = False, filePath = u16 ''n.md'',
           dueDate = Some (Date 1710518399999), rawText = u16 ''a''\<rparr>,
          \<lparr>text = u16 ''b'', completed = False, filePath = u16 ''n.md'',
           dueDate = Some (Date 1710518400000), rawText = u16 ''b''\<rparr>,
          \<lparr>text = u16 ''c'', completed = False, filePath = u16 ''n.md'',
           dueDate = None, rawText = u16 ''c''\<rparr>]"
        "\<lparr>dailyNote = \<lparr>savePath = [], templatePath = [], fileNameFormat = []\<rparr>,
          weeklyNote = \<lparr>savePath = [], templatePath = [], fileNameFormat = []\<rparr>,
          monthlyNote = \<lparr>savePath = [], templatePath = [], fileNameFormat = []\<rparr>,
          quarterlyNote = \<lparr>savePath = [], templatePath = [], fileNameFormat = []\<rparr>,
          yearlyNote = \<lparr>savePath = [], templatePath = [], fileNameFormat = []\<rparr>,
          taskFilter = \<lparr>customFilter = u16 '' ''\<rparr>\<rparr>"
        "Date 1710468000000"]
    by (simp add: e b)
qed

text \<open>
  C7. The range filter keeps exactly the tasks that have a due date \<open>>=\<close> the start date and
  \<open><=\<close> the end date (for valid dates: a time value between the two, both ends included),
  and the list that is shown is a sublist of it chosen by completion status alone. A task
  without a due date is in neither list, whatever the status filter; the filter string of the
  settings is not read on this path.
\<close>

theorem range_filter_keeps_due_in_range:
  "filteredByDateRange allTasks startDate endDate =
     filter (\<lambda>task. \<exists>due. dueDate task = Some due
                \<and> date_ge due startDate \<and> date_le due endDate) allTasks
   \<and> (date_ge (Date due) (Date s) \<and> date_le (Date due) (Date e)) = (s \<le> due \<and> due \<le> e)
   \<and> (\<forall>task \<in> set (filteredByDateRange allTasks startDate endDate). dueDate task \<noteq> None)
   \<and> (\<forall>task \<in> set (renderTaskListByDateRange taskStatusFilter allTasks startDate endDate).
         task \<in> set (filteredByDateRange allTasks startDate endDate) \<and> dueDate task \<noteq> None)"
proof -
  have p: "(case dueDate task of None \<Rightarrow> False
            | Some due \<Rightarrow> date_ge due startDate \<and> date_le due endDate)
      = (\<exists>due. dueDate task = Some due \<and> date_ge due startDate \<and> date_le due endDate)"
    for task
    by (cases "dueDate task") simp_all
  have 1: "filteredByDateRange allTasks startDate endDate =
     filter (\<lambda>task. \<exists>due. dueDate task = Some due
                \<and> date_ge due startDate \<and> date_le due endDate) allTasks"
    unfolding filteredByDateRange_def by (simp only: p)
  have 2: "\<forall>task \<in> set (filteredByDateRange allTasks startDate endDate). dueDate task \<noteq> None"
    by (auto simp add: 1)
  have 3: "\<forall>task \<in> set (renderTaskListByDateRange taskStatusFilter allTasks startDate endDate).
         task \<in> set (filteredByDateRange allTasks startDate endDate)"
    by (auto simp add: renderTaskListByDateRange_def Let_def)
  show ?thesis using 1 2 3 by auto
qed

theorem range_filter_keeps_due_in_range_witness:
  "filteredByDateRange
     [\<lparr>text = u16 ''a'', completed = False, filePath = u16 ''n.md'',
       dueDate = Some (Date 5), rawText = u16 ''a''\<rparr>,
      \<lparr>text = u16 ''b'', completed = True, filePath = u16 ''n.md'',
       dueDate = None, rawText = u16 ''b''\<rparr>,
      \<lparr>text = u16 ''c'', completed = True, filePath = u16 ''n.md'',
       dueDate = Some (Date 9), rawText = u16 ''c''\<rparr>,
      \<lparr>text = u16 ''d'', completed = True, filePath = u16 ''n.md'',
       dueDate = Some (Date 10), rawText = u16 ''d''\<rparr>]
     (Date 5) (Date 9)
   = [\<lparr>text = u16 ''a'', completed = False, filePath = u16 ''n.md'',
       dueDate = Some (Date 5), rawText = u16 ''a''\<rparr>,
      \<lparr>text = u16 ''c'', completed = True, filePath = u16 ''n.md'',
       dueDate = Some (Date 9), rawText = u16 ''c''\<rparr>]
   \<and> renderTaskListByDateRange StatusDone
     [\<lparr>text = u16 ''a'', completed = False, filePath = u16 ''n.md'',
       dueDate = Some (Date 5), rawText = u16 ''a''\<rparr>,
      \<lparr>text = u16 ''b'', completed = True, filePath = u16 ''n.md'',
       dueDate = None, rawText = u16 ''b''\<rparr>,
      \<lparr>text = u16 ''c'', completed = True, filePath = u16 ''n.md'',
       dueDate = Some (Date 9), rawText = u16 ''c''\<rparr>,
      \<lparr>text = u16 ''d'', completed = True, filePath = u16 ''n.md'',
       dueDate = Some (Date 10), rawText = u16 ''d''\<rparr>]
     (Date 5) (Date 9)
   = [\<lparr>text = u16 ''c'', completed = True, filePath = u16 ''n.md'',
       dueDate = Some (Date 9), rawText = u16 ''c''\<rparr>]"
  using range_filter_keeps_due_in_range
    [of "[\<lparr>text = u16 ''a'', completed = False, filePath = u16 ''n.md'',
           dueDate = Some (Date 5), rawText = u16 ''a''\<rparr>,
          \<lparr>text = u16 ''b'', completed = True, filePath = u16 ''n.md'',
           dueDate = None, rawText = u16 ''b''\<rparr>,
          \<lparr>text = u16 ''c'', completed = True, filePath = u16 ''n.md'',
           dueDate = Some (Date 9), rawText = u16 ''c''\<rparr>,
          \<lparr>text = u16 ''d'', completed = True, filePath = u16 ''n.md'',
           dueDate = Some (Date 10), rawText = u16 ''d''\<rparr>]"
        "Date 5" "Date 9" 5 5 9 StatusDone]
  by (simp add: renderTaskListByDateRange_def filteredByDateRange_def)


section \<open>Toggling a task\<close>

text \<open>
  C4, at the document of the claim. The note holds a heading, the line
  \<open>- [ ] Buy milk\<close> with its due date, and one more task; the task is the one extracted from
  the second line. After \<open>updateTaskInNote\<close> with \<open>completed = true\<close> the note is what it
  was: the second line still reads \<open>- [ ]\<close>. The pattern asks for a hyphen followed by
  letters \<open>s\<close> and one of \<open>(\<close>, \<open>.\<close>, \<open>)\<close>, and the line has a space after its hyphen.
  Where the pattern does match, the callback looks in the match for the offset of the match
  in brackets: in a note whose first line is \<open>-([0]\<close> and whose second line is the task
  \<open>- [ ] [0]\<close>, toggling that task rewrites the first line and leaves the task line as
  it was.
\<close>

theorem updateTaskInNote_does_not_toggle:
  "updateTaskInNote
     [u16 ''n.md'' \<mapsto>
        u16 ''# Shop'' @ [0x0A] @ u16 ''- [ ] Buy milk '' @ [0xD83D, 0xDCC5] @ u16 '' 2024-03-15''
          @ [0x0A] @ u16 ''- [ ] Tea'']
     \<lparr>text = u16 ''Buy milk '' @ [0xD83D, 0xDCC5] @ u16 '' 2024-03-15'', completed = False,
      filePath = u16 ''n.md'', dueDate = Some (Date 1710460800000),
      rawText = u16 ''Buy milk '' @ [0xD83D, 0xDCC5] @ u16 '' 2024-03-15''\<rparr>
     True (u16 ''n.md'')
   = Some (u16 ''# Shop'' @ [0x0A] @ u16 ''- [ ] Buy milk '' @ [0xD83D, 0xDCC5]
             @ u16 '' 2024-03-15'' @ [0x0A] @ u16 ''- [ ] Tea'')
   \<and> extractBasicTasks [(u16 ''m.md'', Some (u16 ''-([0]'' @ [0x0A] @ u16 ''- [ ] [0]''))]
     = [\<lparr>text = u16 ''[0]'', completed = False, filePath = u16 ''m.md'', dueDate = None,
          rawText = u16 ''[0]''\<rparr>]
   \<and> updateTaskInNote
       [u16 ''m.md'' \<mapsto> u16 ''-([0]'' @ [0x0A] @ u16 ''- [ ] [0]'']
       \<lparr>text = u16 ''[0]'', completed = False, filePath = u16 ''m.md'', dueDate = None,
        rawText = u16 ''[0]''\<rparr>
       True (u16 ''m.md'')
     = Some (u16 ''-([x]'' @ [0x0A] @ u16 ''- [ ] [0]'')"
  by code_simp


section \<open>The month grid\<close>

lemma LocalTime_UTC: "LocalTime tza (UTC tza x) = x"
  by (simp add: LocalTime_def UTC_def)

lemmas date_eval = getFullYear_def getMonth_def getDate_def getDay_def newDate_def
  MakeDate_def MakeTime_def MakeDay_def daysBeforeMonth_def DayFromYear_def
  YearFromTime_def YearFromDay_def yearAbove_def yearSearch.simps Day_def msPerDay_def
  MonthFromTime_def DateFromTime_def DayWithinYear_def InLeapYear_def WeekDay_def
  LocalTime_UTC

lemma february_2024_cells:
  assumes "getFullYear tza date = 2024" "getMonth tza date = 1"
  shows "getMonthDates tza date =
      [[(newDate tza 2024 0 29, True), (newDate tza 2024 0 30, True), (newDate tza 2024 0 31, True), (newDate tza 2024 1 1, False), (newDate tza 2024 1 2, False), (newDate tza 2024 1 3, False), (newDate tza 2024 1 4, False)],
       [(newDate tza 2024 1 5, False), (newDate tza 2024 1 6, False), (newDate tza 2024 1 7, False), (newDate tza 2024 1 8, False), (newDate tza 2024 1 9, False), (newDate tza 2024 1 10, False), (newDate tza 2024 1 11, False)],
       [(newDate tza 2024 1 12, False), (newDate tza 2024 1 13, False), (newDate tza 2024 1 14, False), (newDate tza 2024 1 15, False), (newDate tza 2024 1 16, False), (newDate tza 2024 1 17, False), (newDate tza 2024 1 18, False)],
       [(newDate tza 2024 1 19, False), (newDate tza 2024 1 20, False), (newDate tza 2024 1 21, False), (newDate tza 2024 1 22, False), (newDate tza 2024 1 23, False), (newDate tza 2024 1 24, False), (newDate tza 2024 1 25, False)],
       [(newDate tza 2024 1 26, False), (newDate tza 2024 1 27, False), (newDate tza 2024 1 28, False), (newDate tza 2024 1 29, False), (newDate tza 2024 2 1, True), (newDate tza 2024 2 2, True), (newDate tza 2024 2 3, True)]]"
proof -
  have fd: "getDay tza (newDate tza 2024 1 1) = 4"
    by (simp add: date_eval)
  have dim: "getDate tza (newDate tza 2024 2 0) = 29"
    by (simp add: date_eval Let_def)
  have jan: "getFullYear tza (newDate tza 2024 0 1) = 2024"
    "getMonth tza (newDate tza 2024 0 1) = 0"
    "getDate tza (newDate tza 2024 1 0) = 31"
    by (simp_all add: date_eval Let_def)
  have a: "getFirstDayOfMonth tza date = 4"
    by (simp add: getFirstDayOfMonth_def assms fd)
  have b: "getDaysInMonth tza date = 29"
    by (simp add: getDaysInMonth_def assms dim)
  have c: "getDaysInMonth tza (newDate tza 2024 0 1) = 31"
    by (simp add: getDaysInMonth_def jan)
  have r: "rowsNeeded (getCalendarMonthData tza date) = 5"
    by (simp add: getCalendarMonthData_def Let_def a b getPrevMonthDaysToShow_def
        getCalendarRows_def)
  have u: "[0..<nat 5] = [0, 1, 2, 3, 4]" "[0..<7] = [0, 1, 2, 3, 4, 5, 6]"
    by (simp_all add: upt_rec)
  show ?thesis
    unfolding getMonthDates_def Let_def r u
    by (simp add: getCellDate_def Let_def a b c assms getPrevMonthDaysToShow_def)
qed

text \<open>
  What holds of the grid. The number of leading days is 6 for a month whose first weekday is
  0 (Sunday) and the weekday of the first day minus one otherwise; the number of rows is the
  least number of weeks that holds the leading days and the days of the month, and this is
  the number of rows of the grid. A cell belongs to another month exactly when it comes
  before the leading days end or after the days of the month. For any date in February 2024
  the grid has 5 rows of 7 cells: 29 to 31 January as days of another month, 1 to 29
  February, and 1 to 3 March as days of another month. Each cell is given as year, month
  (from 0), day of the month, and the flag \<open>isOtherMonth\<close>.
\<close>

theorem month_grid_layout:
  "getPrevMonthDaysToShow firstDay = (if firstDay = 0 then 6 else firstDay - 1)
   \<and> 7 * (getCalendarRows p d - 1) < p + d \<and> p + d \<le> 7 * getCalendarRows p d
   \<and> rowsNeeded (getCalendarMonthData tza date)
       = getCalendarRows (getPrevMonthDaysToShow (getFirstDayOfMonth tza date))
           (getDaysInMonth tza date)
   \<and> int (length (getMonthDates tza date)) = max 0 (rowsNeeded (getCalendarMonthData tza date))
   \<and> (\<forall>row \<in> set (getMonthDates tza date). length row = 7)
   \<and> snd (getCellDate tza rowIndex dayIndex date)
       = (rowIndex * 7 + dayIndex < getPrevMonthDaysToShow (getFirstDayOfMonth tza date)
          \<or> getPrevMonthDaysToShow (getFirstDayOfMonth tza date) + getDaysInMonth tza date
               \<le> rowIndex * 7 + dayIndex)
   \<and> (getFullYear tza date = 2024 \<and> getMonth tza date = 1 \<longrightarrow>
        map (map (\<lambda>(c, other). (getFullYear tza c, getMonth tza c, getDate tza c, other)))
            (getMonthDates tza date)
        = [[(2024, 0, 29, True), (2024, 0, 30, True), (2024, 0, 31, True), (2024, 1, 1, False), (2024, 1, 2, False), (2024, 1, 3, False), (2024, 1, 4, False)],
          [(2024, 1, 5, False), (2024, 1, 6, False), (2024, 1, 7, False), (2024, 1, 8, False), (2024, 1, 9, False), (2024, 1, 10, False), (2024, 1, 11, False)],
          [(2024, 1, 12, False), (2024, 1, 13, False), (2024, 1, 14, False), (2024, 1, 15, False), (2024, 1, 16, False), (2024, 1, 17, False), (2024, 1, 18, False)],
          [(2024, 1, 19, False), (2024, 1, 20, False), (2024, 1, 21, False), (2024, 1, 22, False), (2024, 1, 23, False), (2024, 1, 24, False), (2024, 1, 25, False)],
          [(2024, 1, 26, False), (2024, 1, 27, False), (2024, 1, 28, False), (2024, 1, 29, False), (2024, 2, 1, True), (2024, 2, 2, True), (2024, 2, 3, True)]])"
proof -
  have 1: "getPrevMonthDaysToShow firstDay = (if firstDay = 0 then 6 else firstDay - 1)"
    by (simp add: getPrevMonthDaysToShow_def)
  have 2: "7 * (getCalendarRows p d - 1) < p + d \<and> p + d \<le> 7 * getCalendarRows p d"
  proof -
    define q where "q = (- (p + d)) div 7"
    define r where "r = (- (p + d)) mod 7"
    have "0 \<le> r" "r < 7"
      by (simp_all add: r_def)
    moreover have "7 * q + r = - (p + d)"
      by (simp add: q_def r_def)
    ultimately have "7 * (- q - 1) < p + d \<and> p + d \<le> 7 * - q"
      by (simp add: algebra_simps)
    then show ?thesis unfolding getCalendarRows_def q_def .
  qed

  have 3: "rowsNeeded (getCalendarMonthData tza date)
       = getCalendarRows (getPrevMonthDaysToShow (getFirstDayOfMonth tza date))
           (getDaysInMonth tza date)"
    by (simp add: getCalendarMonthData_def Let_def)
  have 4: "int (length (getMonthDates tza date))
       = max 0 (rowsNeeded (getCalendarMonthData tza date))"
    by (simp add: getMonthDates_def Let_def)
  have 5: "\<forall>row \<in> set (getMonthDates tza date). length row = 7"
    by (auto simp add: getMonthDates_def Let_def)
  have 6: "map (map (\<lambda>(c, other). (getFullYear tza c, getMonth tza c, getDate tza c, other)))
            (getMonthDates tza date)
        = [[(2024, 0, 29, True), (2024, 0, 30, True), (2024, 0, 31, True), (2024, 1, 1, False), (2024, 1, 2, False), (2024, 1, 3, False), (2024, 1, 4, False)],
          [(2024, 1, 5, False), (2024, 1, 6, False), (2024, 1, 7, False), (2024, 1, 8, False), (2024, 1, 9, False), (2024, 1, 10, False), (2024, 1, 11, False)],
          [(2024, 1, 12, False), (2024, 1, 13, False), (2024, 1, 14, False), (2024, 1, 15, False), (2024, 1, 16, False), (2024, 1, 17, False), (2024, 1, 18, False)],
          [(2024, 1, 19, False), (2024, 1, 20, False), (2024, 1, 21, False), (2024, 1, 22, False), (2024, 1, 23, False), (2024, 1, 24, False), (2024, 1, 25, False)],
          [(2024, 1, 26, False), (2024, 1, 27, False), (2024, 1, 28, False), (2024, 1, 29, False), (2024, 2, 1, True), (2024, 2, 2, True), (2024, 2, 3, True)]]"
    if h: "getFullYear tza date = 2024" "getMonth tza date = 1"
    unfolding february_2024_cells[OF h]
    by (simp only: list.map prod.case) (simp add: date_eval Let_def)
  have 7: "snd (getCellDate tza rowIndex dayIndex date)
       = (rowIndex * 7 + dayIndex < getPrevMonthDaysToShow (getFirstDayOfMonth tza date)
          \<or> getPrevMonthDaysToShow (getFirstDayOfMonth tza date) + getDaysInMonth tza date
               \<le> rowIndex * 7 + dayIndex)"
    by (auto simp add: getCellDate_def Let_def)
  show ?thesis using 1 2 3 4 5 6 7 by blast
qed

theorem month_grid_layout_witness:
  "getFullYear 28800000 (newDate 28800000 2024 1 15) = 2024
   \<and> getMonth 28800000 (newDate 28800000 2024 1 15) = 1
   \<and> map (map (\<lambda>(c, other). (getFullYear 28800000 c, getMonth 28800000 c,
                                getDate 28800000 c, other)))
        (getMonthDates 28800000 (newDate 28800000 2024 1 15))
      = [[(2024, 0, 29, True), (2024, 0, 30, True), (2024, 0, 31, True), (2024, 1, 1, False), (2024, 1, 2, False), (2024, 1, 3, False), (2024, 1, 4, False)],
          [(2024, 1, 5, False), (2024, 1, 6, False), (2024, 1, 7, False), (2024, 1, 8, False), (2024, 1, 9, False), (2024, 1, 10, False), (2024, 1, 11, False)],
          [(2024, 1, 12, False), (2024, 1, 13, False), (2024, 1, 14, False), (2024, 1, 15, False), (2024, 1, 16, False), (2024, 1, 17, False), (2024, 1, 18, False)],
          [(2024, 1, 19, False), (2024, 1, 20, False), (2024, 1, 21, False), (2024, 1, 22, False), (2024, 1, 23, False), (2024, 1, 24, False), (2024, 1, 25, False)],
          [(2024, 1, 26, False), (2024, 1, 27, False), (2024, 1, 28, False), (2024, 1, 29, False), (2024, 2, 1, True), (2024, 2, 2, True), (2024, 2, 3, True)]]"
proof -
  have h: "getFullYear 28800000 (newDate 28800000 2024 1 15) = 2024
      \<and> getMonth 28800000 (newDate 28800000 2024 1 15) = 1"
    by (simp add: date_eval Let_def)
  show ?thesis
    using month_grid_layout[of 0 0 0 28800000 "newDate 28800000 2024 1 15" 0 0] h by blast
qed


text \<open>
  C8, at January 2023, a month that starts on a Sunday. The first weekday is 0 and the grid
  has 6 leading days, numbered 26 to 31, as the rule of the leading days says. Their dates
  are 26 to 31 December 2021, not December 2022: for January \<open>getCellDate\<close> takes the
  previous year and also month \<open>-1\<close>, which \<open>new Date\<close> carries one more year back. The same
  function gets the last day of the previous month right in \<open>getCalendarMonthData\<close>
  (31 December 2022). The seventh cell of the row is 1 January 2023.
\<close>

theorem january_2023_leading_days:
  "getFirstDayOfMonth tza (newDate tza 2023 0 15) = 0
   \<and> getPrevMonthDaysToShow (getFirstDayOfMonth tza (newDate tza 2023 0 15)) = 6
   \<and> map (\<lambda>(c, other). (getFullYear tza c, getMonth tza c, getDate tza c, other))
        (hd (getMonthDates tza (newDate tza 2023 0 15)))
      = [(2021, 11, 26, True), (2021, 11, 27, True), (2021, 11, 28, True), (2021, 11, 29, True),
         (2021, 11, 30, True), (2021, 11, 31, True), (2023, 0, 1, False)]
   \<and> (\<lambda>c. (getFullYear tza c, getMonth tza c, getDate tza c))
        (lastDayOfPrevMonth (getCalendarMonthData tza (newDate tza 2023 0 15)))
      = (2022, 11, 31)"
proof -
  let ?date = "newDate tza 2023 0 15"
  have h: "getFullYear tza ?date = 2023" "getMonth tza ?date = 0"
    by (simp_all add: date_eval Let_def)
  have fd: "getDay tza (newDate tza 2023 0 1) = 0"
    by (simp add: date_eval Let_def)
  have dim: "getDate tza (newDate tza 2023 1 0) = 31"
    by (simp add: date_eval Let_def)
  have prev: "getFullYear tza (newDate tza 2022 (- 1) 1) = 2021"
    "getMonth tza (newDate tza 2022 (- 1) 1) = 11"
    "getDate tza (newDate tza 2021 12 0) = 31"
    by (simp_all add: date_eval Let_def)
  have a: "getFirstDayOfMonth tza ?date = 0"
    by (simp add: getFirstDayOfMonth_def h fd)
  have b: "getDaysInMonth tza ?date = 31"
    by (simp add: getDaysInMonth_def h dim)
  have c: "getDaysInMonth tza (newDate tza 2022 (- 1) 1) = 31"
    by (simp add: getDaysInMonth_def prev)
  have p: "getPrevMonthDaysToShow (getFirstDayOfMonth tza ?date) = 6"
    by (simp add: a getPrevMonthDaysToShow_def)
  have r: "rowsNeeded (getCalendarMonthData tza ?date) = 6"
    by (simp add: getCalendarMonthData_def Let_def a b getPrevMonthDaysToShow_def
        getCalendarRows_def)
  have u: "[0..<nat 6] = [0, 1, 2, 3, 4, 5]" "[0..<7] = [0, 1, 2, 3, 4, 5, 6]"
    by (simp_all add: upt_rec)
  have row: "hd (getMonthDates tza ?date)
      = [(newDate tza 2022 (- 1) 26, True), (newDate tza 2022 (- 1) 27, True),
         (newDate tza 2022 (- 1) 28, True), (newDate tza 2022 (- 1) 29, True),
         (newDate tza 2022 (- 1) 30, True), (newDate tza 2022 (- 1) 31, True),
         (newDate tza 2023 0 1, False)]"
    unfolding getMonthDates_def Let_def r u
    by (simp add: getCellDate_def Let_def a b c h getPrevMonthDaysToShow_def)
  have cells: "map (\<lambda>(c, other). (getFullYear tza c, getMonth tza c, getDate tza c, other))
        (hd (getMonthDates tza ?date))
      = [(2021, 11, 26, True), (2021, 11, 27, True), (2021, 11, 28, True), (2021, 11, 29, True),
         (2021, 11, 30, True), (2021, 11, 31, True), (2023, 0, 1, False)]"
    unfolding row
    by (simp only: list.map prod.case) (simp add: date_eval Let_def)
  have l: "lastDayOfPrevMonth (getCalendarMonthData tza ?date) = newDate tza 2023 0 0"
    by (simp add: getCalendarMonthData_def Let_def h)
  have lp: "(\<lambda>c. (getFullYear tza c, getMonth tza c, getDate tza c))
        (lastDayOfPrevMonth (getCalendarMonthData tza ?date)) = (2022, 11, 31)"
    unfolding l by (simp add: date_eval Let_def)
  show ?thesis using a p cells lp by simp
qed

section \<open>ISO week numbers\<close>

lemma DayFromYear_mono_le: "y \<le> z \<Longrightarrow> DayFromYear z - DayFromYear y \<ge> 364 * (z - y)"
proof (induction "nat (z - y)" arbitrary: z)
  case 0
  then show ?case by simp
next
  case (Suc n)
  then have "n = nat ((z - 1) - y)" "y \<le> z - 1" by auto
  from Suc(1)[OF this] DayFromYear_succ(1)[of "z - 1"] show ?case by simp
qed

lemma DayFromYear_mono_ge: "y \<le> z \<Longrightarrow> DayFromYear z - DayFromYear y \<le> 367 * (z - y)"
proof (induction "nat (z - y)" arbitrary: z)
  case 0
  then show ?case by simp
next
  case (Suc n)
  then have "n = nat ((z - 1) - y)" "y \<le> z - 1" by auto
  from Suc(1)[OF this] DayFromYear_succ(2)[of "z - 1"] show ?case by simp
qed

lemma DayFromYear_1970: "DayFromYear 1970 = 0" by (simp add: DayFromYear_def)

lemma yearAbove_gt: "d < DayFromYear (yearAbove d)"
proof (cases "d \<ge> 0")
  case True
  then have y: "1970 \<le> yearAbove d" by (simp add: yearAbove_def pos_imp_zdiv_nonneg_iff)
  from DayFromYear_mono_le[OF y] have "DayFromYear (yearAbove d) \<ge> 364 * (yearAbove d - 1970)"
    by (simp add: DayFromYear_1970)
  moreover have "364 * (yearAbove d - 1970) = 364 * (d div 364) + 364" using True by (simp add: yearAbove_def)
  moreover have "d < 364 * (d div 364) + 364"
    using pos_mod_bound[of 364 d] mult_div_mod_eq[of 364 d] by linarith
  ultimately show ?thesis by linarith
next
  case False
  show ?thesis
  proof (cases "yearAbove d \<ge> 1970")
    case True
    from DayFromYear_mono_le[OF True] have "DayFromYear (yearAbove d) \<ge> 0" using True by (simp add: DayFromYear_1970)
    with False show ?thesis by simp
  next
    case F2: False
    then have y: "yearAbove d \<le> 1970" by simp
    from DayFromYear_mono_ge[OF y] have "DayFromYear (yearAbove d) \<ge> - 367 * (1970 - yearAbove d)"
      by (simp add: DayFromYear_1970)
    moreover have "- 367 * (1970 - yearAbove d) = 367 * (d div 367) + 367" using False by (simp add: yearAbove_def)
    moreover have "d < 367 * (d div 367) + 367"
      using pos_mod_bound[of 367 d] mult_div_mod_eq[of 367 d] by linarith
    ultimately show ?thesis by linarith
  qed
qed

lemma yearSearch_spec:
  "d < DayFromYear (y + 1) \<Longrightarrow> DayFromYear (yearSearch y d) \<le> d \<and> d < DayFromYear (yearSearch y d + 1)"
proof (induction y d rule: yearSearch.induct)
  case (1 y d)
  show ?case
  proof (cases "DayFromYear y \<le> d")
    case True
    with 1(2) show ?thesis by (subst (1 2) yearSearch.simps) simp
  next
    case False
    then have "d < DayFromYear (y - 1 + 1)" by simp
    from 1(1)[OF False this] False show ?thesis by (subst (1 2) yearSearch.simps) simp
  qed
qed

lemma YearFromDay_spec: "DayFromYear (YearFromDay d) \<le> d \<and> d < DayFromYear (YearFromDay d + 1)"
proof -
  have "d < DayFromYear (yearAbove d + 1)"
    using yearAbove_gt[of d] DayFromYear_succ(1)[of "yearAbove d"] by linarith
  then show ?thesis unfolding YearFromDay_def by (rule yearSearch_spec)
qed

lemma thursday_facts:
  "isoWeekday (weekThursday day) = 4" "weekThursday day - 3 \<le> day" "day \<le> weekThursday day + 3"
  unfolding weekThursday_def isoWeekday_def by presburger+

lemma firstThursday_facts:
  "isoWeekday (firstThursday y) = 4" "DayFromYear y \<le> firstThursday y" "firstThursday y < DayFromYear y + 7"
  unfolding firstThursday_def isoWeekday_def Let_def by presburger+

lemma thursday_after:
  assumes "isoWeekday a = 4" "isoWeekday b = 4" "j \<le> a" "b < j + 7"
  shows "b \<le> a" "(a - b) mod 7 = 0"
  using assms unfolding isoWeekday_def by presburger+

lemma week_range: "1 \<le> isoWeekOfDay day \<and> isoWeekOfDay day \<le> 53"
proof -
  define th where "th = weekThursday day"
  define y where "y = isoWeekYearOfDay day"
  define ft where "ft = firstThursday y"
  have yr: "DayFromYear y \<le> th" "th < DayFromYear (y + 1)"
    using YearFromDay_spec[of th] by (simp_all add: y_def isoWeekYearOfDay_def th_def)
  have le: "ft \<le> th"
    using thursday_after(1)[of th ft "DayFromYear y"] thursday_facts(1)[of day] firstThursday_facts[of y] yr(1)
    by (simp add: th_def ft_def)
  have "th - ft \<le> 366"
    using yr(2) DayFromYear_succ(2)[of y] firstThursday_facts(2)[of y] by (simp add: ft_def)
  then have "(th - ft) div 7 \<le> 52" by linarith
  moreover have "0 \<le> (th - ft) div 7" using le by (simp add: pos_imp_zdiv_nonneg_iff)
  ultimately show ?thesis by (simp add: isoWeekOfDay_def th_def[symmetric] y_def[symmetric] ft_def[symmetric])
qed


text \<open>
  C9. The week number of \<open>getWeekInfo\<close> lies between 1 and 53. With \<open>th\<close> the Thursday of
  the Monday-to-Sunday week of the date, the year of \<open>getWeekInfo\<close> is the year in which
  \<open>th\<close> lies, and \<open>th\<close> is the first Thursday of that year plus a whole number of weeks,
  week 1 being the week of that first Thursday. For 1 January 2023, a Sunday, the result is
  week 52 of 2022, while the calendar year of the date is 2023.
\<close>

theorem getWeekInfo_iso_week:
  "1 \<le> week (getWeekInfo tza date) \<and> week (getWeekInfo tza date) \<le> 53
   \<and> (let day = Day (LocalTime tza date);
           th = weekThursday day;
           y = year (getWeekInfo tza date)
       in isoWeekday th = 4 \<and> th - 3 \<le> day \<and> day \<le> th + 3
          \<and> DayFromYear y \<le> th \<and> th < DayFromYear (y + 1)
          \<and> isoWeekday (firstThursday y) = 4
          \<and> DayFromYear y \<le> firstThursday y \<and> firstThursday y < DayFromYear y + 7
          \<and> th = firstThursday y + 7 * (week (getWeekInfo tza date) - 1))
   \<and> getWeekInfo tza (newDate tza 2023 0 1) = \<lparr>week = 52, year = 2022\<rparr>
   \<and> getFullYear tza (newDate tza 2023 0 1) = 2023
   \<and> getDay tza (newDate tza 2023 0 1) = 0"
proof -
  define day where "day = Day (LocalTime tza date)"
  define th where "th = weekThursday day"
  define y where "y = YearFromDay th"
  have wk: "week (getWeekInfo tza date) = (th - firstThursday y) div 7 + 1"
    and yr: "year (getWeekInfo tza date) = y"
    by (simp_all add: getWeekInfo_def isoWeek_def isoWeekYear_def isoWeekOfDay_def
        isoWeekYearOfDay_def day_def th_def y_def)
  have r: "1 \<le> week (getWeekInfo tza date) \<and> week (getWeekInfo tza date) \<le> 53"
    using week_range[of day] by (simp add: getWeekInfo_def isoWeek_def day_def)
  have t: "isoWeekday th = 4" "th - 3 \<le> day" "day \<le> th + 3"
    using thursday_facts[of day] by (simp_all add: th_def)
  have iny: "DayFromYear y \<le> th" "th < DayFromYear (y + 1)"
    using YearFromDay_spec[of th] by (simp_all add: y_def)
  have f: "isoWeekday (firstThursday y) = 4" "DayFromYear y \<le> firstThursday y"
    "firstThursday y < DayFromYear y + 7"
    by (rule firstThursday_facts)+
  have m: "(th - firstThursday y) mod 7 = 0"
    using thursday_after(2)[OF t(1) f(1) iny(1) f(3)] .
  have "7 * ((th - firstThursday y) div 7) = th - firstThursday y"
    using m mult_div_mod_eq[of 7 "th - firstThursday y"] by simp
  then have s: "th = firstThursday y + 7 * (week (getWeekInfo tza date) - 1)"
    by (simp add: wk)
  have ex: "getWeekInfo tza (newDate tza 2023 0 1) = \<lparr>week = 52, year = 2022\<rparr>"
    by (simp add: getWeekInfo_def isoWeek_def isoWeekYear_def isoWeekOfDay_def
        isoWeekYearOfDay_def weekThursday_def firstThursday_def isoWeekday_def date_eval Let_def)
  have g: "getFullYear tza (newDate tza 2023 0 1) = 2023"
    "getDay tza (newDate tza 2023 0 1) = 0"
    by (simp_all add: date_eval Let_def)
  show ?thesis
    unfolding Let_def day_def[symmetric] th_def[symmetric] yr
    using r t iny f s ex g by simp
qed

theorem getWeekInfo_iso_week_witness:
  "week (getWeekInfo 28800000 (newDate 28800000 2024 11 30)) = 1
   \<and> year (getWeekInfo 28800000 (newDate 28800000 2024 11 30)) = 2025
   \<and> 1 \<le> week (getWeekInfo 28800000 (newDate 28800000 2024 11 30))
   \<and> week (getWeekInfo 28800000 (newDate 28800000 2024 11 30)) \<le> 53"
proof -
  have "getWeekInfo 28800000 (newDate 28800000 2024 11 30) = \<lparr>week = 1, year = 2025\<rparr>"
    by (simp add: getWeekInfo_def isoWeek_def isoWeekYear_def isoWeekOfDay_def
        isoWeekYearOfDay_def weekThursday_def firstThursday_def isoWeekday_def date_eval Let_def)
  then show ?thesis
    using getWeekInfo_iso_week[of 28800000 "newDate 28800000 2024 11 30"] by simp
qed

section \<open>Formatting a date\<close>

lemma replaceFirst_absent: "\<not> sublist pat s \<Longrightarrow> replaceFirst s pat rep = s"
proof (induction s)
  case Nil
  then show ?case by auto
next
  case (Cons c cs)
  then show ?case by (auto simp add: startsWith_prefix sublist_Cons_right)
qed

lemma replaceFirst_first:
  "pat \<noteq> [] \<Longrightarrow> \<not> sublist pat (pre @ butlast pat) \<Longrightarrow>
     replaceFirst (pre @ pat @ post) pat rep = pre @ rep @ post"
proof (induction pre)
  case Nil
  then show ?case
    by (cases pat) (auto simp add: startsWith_def)
next
  case (Cons c cs)
  have np: "\<not> prefix pat ((c # cs) @ pat @ post)"
  proof
    assume p: "prefix pat ((c # cs) @ pat @ post)"
    have "length pat \<le> length ((c # cs) @ butlast pat)" using Cons(2) by (cases pat) auto
    moreover have "(c # cs) @ pat @ post = ((c # cs) @ butlast pat) @ (last pat # post)"
      using Cons(2) by (simp add: append_butlast_last_id[symmetric] del: append_butlast_last_id)
    ultimately have "prefix pat ((c # cs) @ butlast pat)"
      using p by (metis prefix_length_prefix prefixI)
    then show False using Cons(3) by (auto dest: prefix_imp_sublist)
  qed
  have ns: "\<not> sublist pat (cs @ butlast pat)"
    using Cons(3) by (auto simp add: sublist_Cons_right)
  from Cons(1)[OF Cons(2) ns] np show ?case
    by (simp add: startsWith_prefix)
qed

lemma numberToString_lt10: "n < 10 \<Longrightarrow> length (numberToString n) = 1"
  by (subst numberToString.simps) simp
lemma numberToString_2: "10 \<le> n \<Longrightarrow> n < 100 \<Longrightarrow> length (numberToString n) = 2"
  by (subst numberToString.simps) (simp del: numberToString.simps add: numberToString_lt10)

lemma week_two_digits: "length (padStart (intToString (week (getWeekInfo tza date))) 2 0x30) = 2"
proof -
  have r: "1 \<le> isoWeekOfDay (Day (LocalTime tza date)) \<and> isoWeekOfDay (Day (LocalTime tza date)) \<le> 53"
    by (rule week_range)
  define w where "w = isoWeekOfDay (Day (LocalTime tza date))"
  from r have w: "1 \<le> w" "w \<le> 53" by (simp_all add: w_def)
  show ?thesis
  proof (cases "nat w < 10")
    case True
    then show ?thesis using w
      by (simp add: getWeekInfo_def isoWeek_def w_def[symmetric] padStart_def intToString_def del: numberToString.simps add: numberToString_lt10)
  next
    case False
    then have "10 \<le> nat w" "nat w < 100" using w by auto
    then show ?thesis using w
      by (simp add: getWeekInfo_def isoWeek_def w_def[symmetric] padStart_def intToString_def del: numberToString.simps add: numberToString_2)
  qed
qed

lemma month_range: "0 \<le> MonthFromTime t \<and> MonthFromTime t \<le> 11"
  by (simp add: MonthFromTime_def Let_def)

lemma quarter_range: "1 \<le> getQuarter tza date \<and> getQuarter tza date \<le> 4"
  using month_range[of "LocalTime tza date"] unfolding getQuarter_def getMonth_def by presburger


lemma quarter_digit:
  "intToString (getQuarter tza date) =
     (if getMonth tza date \<le> 2 then u16 ''1''
      else if getMonth tza date \<le> 5 then u16 ''2''
      else if getMonth tza date \<le> 8 then u16 ''3''
      else u16 ''4'')"
proof -
  define m where "m = getMonth tza date"
  from month_range[of "LocalTime tza date"]
  have "0 \<le> m" "m \<le> 11"
    by (simp_all add: getMonth_def m_def)
  then have "m = 0 \<or> m = 1 \<or> m = 2 \<or> m = 3 \<or> m = 4 \<or> m = 5 \<or> m = 6 \<or> m = 7
      \<or> m = 8 \<or> m = 9 \<or> m = 10 \<or> m = 11"
    by arith
  then have "intToString ((m + 3) div 3) =
     (if m \<le> 2 then u16 ''1'' else if m \<le> 5 then u16 ''2''
      else if m \<le> 8 then u16 ''3'' else u16 ''4'')"
    by (elim disjE) (simp_all add: intToString_def numberToString.simps u16_def)
  then show ?thesis by (simp add: getQuarter_def m_def)
qed

text \<open>
  C10. \<open>formatDate\<close> hands to the generic pass the format string in which the first
  \<open>GGGG\<close> is replaced by the ISO week-year, then the first \<open>WW\<close> by the week number on two
  digits, then the first \<open>Q\<close> by the quarter: the digit 1 for the months January to March,
  2 for April to June, 3 for July to September, 4 for October to December (the month from 0,
  divided by 3, plus 1). \<open>replaceFirst\<close> leaves a string without the token as it is, and
  replaces the leftmost occurrence only. In \<open>GGGG-GGGG WW WW Q [Q]\<close> for 1 January 2023 the
  second tokens reach the generic pass unchanged; for 1 February 2024, in week 5, \<open>WW\<close>
  becomes \<open>05\<close>; \<open>YYYY-Q[Q]\<close> becomes \<open>YYYY-2[Q]\<close> on 15 May 2024 and \<open>YYYY-3[Q]\<close> on
  15 August 2024, and \<open>Q QQ\<close> becomes \<open>4 QQ\<close> on 31 December 2024.
\<close>

theorem formatDate_custom_tokens:
  "formatDate dayjsFormat tza date format =
     dayjsFormat date
       (replaceFirst
          (replaceFirst
             (replaceFirst format (u16 ''GGGG'') (intToString (year (getWeekInfo tza date))))
             (u16 ''WW'') (padStart (intToString (week (getWeekInfo tza date))) 2 0x30))
          (u16 ''Q'') (intToString (getQuarter tza date)))
   \<and> length (padStart (intToString (week (getWeekInfo tza date))) 2 0x30) = 2
   \<and> 1 \<le> getQuarter tza date \<and> getQuarter tza date \<le> 4
   \<and> (\<not> sublist pat s \<longrightarrow> replaceFirst s pat rep = s)
   \<and> (pat \<noteq> [] \<and> \<not> sublist pat (pre @ butlast pat) \<longrightarrow>
        replaceFirst (pre @ pat @ post) pat rep = pre @ rep @ post)
   \<and> formatDate dayjsFormat tza (newDate tza 2023 0 1) (u16 ''GGGG-GGGG WW WW Q [Q]'')
       = dayjsFormat (newDate tza 2023 0 1) (u16 ''2022-GGGG 52 WW 1 [Q]'')
   \<and> formatDate dayjsFormat tza (newDate tza 2024 1 1) (u16 ''GGGG-[W]WW'')
       = dayjsFormat (newDate tza 2024 1 1) (u16 ''2024-[W]05'')
   \<and> getQuarter tza date = getMonth tza date div 3 + 1
   \<and> intToString (getQuarter tza date) =
       (if getMonth tza date \<le> 2 then u16 ''1''
        else if getMonth tza date \<le> 5 then u16 ''2''
        else if getMonth tza date \<le> 8 then u16 ''3''
        else u16 ''4'')
   \<and> formatDate dayjsFormat tza (newDate tza 2024 4 15) (u16 ''YYYY-Q[Q]'')
       = dayjsFormat (newDate tza 2024 4 15) (u16 ''YYYY-2[Q]'')
   \<and> formatDate dayjsFormat tza (newDate tza 2024 7 15) (u16 ''YYYY-Q[Q]'')
       = dayjsFormat (newDate tza 2024 7 15) (u16 ''YYYY-3[Q]'')
   \<and> formatDate dayjsFormat tza (newDate tza 2024 11 31) (u16 ''Q QQ'')
       = dayjsFormat (newDate tza 2024 11 31) (u16 ''4 QQ'')"
proof -
  have 1: "formatDate dayjsFormat tza date format =
     dayjsFormat date
       (replaceFirst
          (replaceFirst
             (replaceFirst format (u16 ''GGGG'') (intToString (year (getWeekInfo tza date))))
             (u16 ''WW'') (padStart (intToString (week (getWeekInfo tza date))) 2 0x30))
          (u16 ''Q'') (intToString (getQuarter tza date)))"
    by (simp add: formatDate_def Let_def)
  have w1: "getWeekInfo tza (newDate tza 2023 0 1) = \<lparr>week = 52, year = 2022\<rparr>"
    by (simp add: getWeekInfo_def isoWeek_def isoWeekYear_def isoWeekOfDay_def
        isoWeekYearOfDay_def weekThursday_def firstThursday_def isoWeekday_def date_eval Let_def)
  have q1: "getQuarter tza (newDate tza 2023 0 1) = 1"
    by (simp add: getQuarter_def date_eval Let_def)
  have e1: "formatDate dayjsFormat tza (newDate tza 2023 0 1) (u16 ''GGGG-GGGG WW WW Q [Q]'')
       = dayjsFormat (newDate tza 2023 0 1) (u16 ''2022-GGGG 52 WW 1 [Q]'')"
    unfolding formatDate_def w1 q1 Let_def
    by (simp add: intToString_def padStart_def startsWith_def u16_def numberToString.simps)
  have w2: "getWeekInfo tza (newDate tza 2024 1 1) = \<lparr>week = 5, year = 2024\<rparr>"
    by (simp add: getWeekInfo_def isoWeek_def isoWeekYear_def isoWeekOfDay_def
        isoWeekYearOfDay_def weekThursday_def firstThursday_def isoWeekday_def date_eval Let_def)
  have q2: "getQuarter tza (newDate tza 2024 1 1) = 1"
    by (simp add: getQuarter_def date_eval Let_def)
  have e2: "formatDate dayjsFormat tza (newDate tza 2024 1 1) (u16 ''GGGG-[W]WW'')
       = dayjsFormat (newDate tza 2024 1 1) (u16 ''2024-[W]05'')"
    unfolding formatDate_def w2 q2 Let_def
    by (simp add: intToString_def padStart_def startsWith_def u16_def numberToString.simps)
  have qq: "getQuarter tza (newDate tza 2024 4 15) = 2" "getQuarter tza (newDate tza 2024 7 15) = 3"
    "getQuarter tza (newDate tza 2024 11 31) = 4"
    by (simp_all add: getQuarter_def date_eval Let_def)
  have ng: "replaceFirst (u16 ''YYYY-Q[Q]'') (u16 ''GGGG'') x = u16 ''YYYY-Q[Q]''"
    "replaceFirst (u16 ''YYYY-Q[Q]'') (u16 ''WW'') y = u16 ''YYYY-Q[Q]''"
    "replaceFirst (u16 ''Q QQ'') (u16 ''GGGG'') x = u16 ''Q QQ''"
    "replaceFirst (u16 ''Q QQ'') (u16 ''WW'') y = u16 ''Q QQ''" for x y
    by (simp_all add: startsWith_def u16_def)
  have rr: "replaceFirst (u16 ''YYYY-Q[Q]'') (u16 ''Q'') (u16 ''2'') = u16 ''YYYY-2[Q]''"
    "replaceFirst (u16 ''YYYY-Q[Q]'') (u16 ''Q'') (u16 ''3'') = u16 ''YYYY-3[Q]''"
    "replaceFirst (u16 ''Q QQ'') (u16 ''Q'') (u16 ''4'') = u16 ''4 QQ''"
    by (simp_all add: startsWith_def u16_def)
  have ii: "intToString 2 = u16 ''2''" "intToString 3 = u16 ''3''" "intToString 4 = u16 ''4''"
    by (simp_all add: intToString_def numberToString.simps u16_def)
  have e3: "formatDate dayjsFormat tza (newDate tza 2024 4 15) (u16 ''YYYY-Q[Q]'')
       = dayjsFormat (newDate tza 2024 4 15) (u16 ''YYYY-2[Q]'')"
    by (simp only: formatDate_def Let_def ng qq ii rr)
  have e4: "formatDate dayjsFormat tza (newDate tza 2024 7 15) (u16 ''YYYY-Q[Q]'')
       = dayjsFormat (newDate tza 2024 7 15) (u16 ''YYYY-3[Q]'')"
    by (simp only: formatDate_def Let_def ng qq ii rr)
  have e5: "formatDate dayjsFormat tza (newDate tza 2024 11 31) (u16 ''Q QQ'')
       = dayjsFormat (newDate tza 2024 11 31) (u16 ''4 QQ'')"
    by (simp only: formatDate_def Let_def ng qq ii rr)
  have qm: "getQuarter tza date = getMonth tza date div 3 + 1"
    by (simp add: getQuarter_def)
  show ?thesis
    using 1 week_two_digits[of tza date] quarter_range[of tza date]
      replaceFirst_absent[of pat s rep] replaceFirst_first[of pat pre post rep] e1 e2
      qm quarter_digit[of tza date] e3 e4 e5
    by blast
qed

theorem formatDate_custom_tokens_witness:
  "\<not> sublist (u16 ''WW'') (u16 ''YYYY-MM'')
   \<and> replaceFirst (u16 ''YYYY-MM'') (u16 ''WW'') (u16 ''07'') = u16 ''YYYY-MM''
   \<and> u16 ''Q'' \<noteq> [] \<and> \<not> sublist (u16 ''Q'') (u16 ''YYYY-'' @ butlast (u16 ''Q''))
   \<and> replaceFirst (u16 ''YYYY-'' @ u16 ''Q'' @ u16 ''[Q]'') (u16 ''Q'') (u16 ''3'')
       = u16 ''YYYY-'' @ u16 ''3'' @ u16 ''[Q]''"
proof -
  have a: "\<not> sublist (u16 ''WW'') (u16 ''YYYY-MM'')"
    by (simp add: str_includes_sublist[symmetric] startsWith_def u16_def)
  have b: "u16 ''Q'' \<noteq> [] \<and> \<not> sublist (u16 ''Q'') (u16 ''YYYY-'' @ butlast (u16 ''Q''))"
    by (simp add: str_includes_sublist[symmetric] startsWith_def u16_def)
  show ?thesis
    using formatDate_custom_tokens
            [of "\<lambda>d f. f" 0 0 "[]" "u16 ''WW''" "u16 ''YYYY-MM''" "u16 ''07''" "u16 ''YYYY-''"]
          formatDate_custom_tokens
            [of "\<lambda>d f. f" 0 0 "[]" "u16 ''Q''" "[]" "u16 ''3''" "u16 ''YYYY-''" "u16 ''[Q]''"]
          a b
    by blast
qed


section \<open>Extracting tasks\<close>

lemma completed_iff_marker:
  "completed (taskOfMatch path [m] rest) = (m = 0x78 \<or> m = 0x58)"
proof -
  have "(toLowerCase [m] = u16 ''x'') = (m = 0x78 \<or> m = 0x58)"
  proof (cases "0x41 \<le> m \<and> m \<le> 0x5A")
    case True
    have "(m + 0x20 = 0x78) = (m = 0x78 - 0x20)"
      by (simp only: eq_diff_eq)
    then have "(m + 0x20 = 0x78) = (m = 0x58)"
      by simp
    moreover have "m \<noteq> 0x78"
      using True by auto
    ultimately show ?thesis using True by (simp add: toLowerCase_def u16_def)
  next
    case False
    then show ?thesis by (auto simp add: toLowerCase_def u16_def)
  qed
  then show ?thesis by (simp add: taskOfMatch_def Let_def)
qed

text \<open>
  The completed flag is read from the marker that \<open>taskRegex\<close> captured. The white space
  of the pattern also takes line ends: a line \<open>- [x]\<close> with nothing after it, followed by
  the line \<open>- [ ] b\<close>, gives one task, completed, whose raw text is the whole second line.
\<close>

lemma marker_line_without_text: "extractBasicTasks [(u16 ''n.md'', Some (u16 ''- [x]'' @ [0x0A] @ u16 ''- [ ] b''))]
   = [\<lparr>text = u16 ''- [ ] b'', completed = True, filePath = u16 ''n.md'', dueDate = None,
        rawText = u16 ''- [ ] b''\<rparr>]"
  by code_simp

text \<open>
  C5, at the line \<open>- [ ] Buy milk\<close> with the calendar emoji and \<open>2024-03-15\<close>, read in a
  zone five hours behind UTC. Extraction gives one task, not completed, whose due date is
  midnight UTC of 15 March (1710460800000). Midnight of 15 March in local time is five hours
  later (1710478800000); the due date that was stored falls on 14 March, 19:00, in local
  time, and \<open>filterTasks\<close> with 14 March as its cutoff date already lists the task.
\<close>

theorem extractBasicTasks_reads_due_date_as_utc:
  "extractBasicTasks
     [(u16 ''n.md'',
       Some (u16 ''- [ ] Buy milk '' @ [0xD83D, 0xDCC5] @ u16 '' 2024-03-15''))]
   = [\<lparr>text = u16 ''Buy milk '' @ [0xD83D, 0xDCC5] @ u16 '' 2024-03-15'',
        completed = False, filePath = u16 ''n.md'', dueDate = Some (Date 1710460800000),
        rawText = u16 ''Buy milk '' @ [0xD83D, 0xDCC5] @ u16 '' 2024-03-15''\<rparr>]
   \<and> newDate (- 18000000) 2024 2 15 = 1710478800000
   \<and> getFullYear (- 18000000) 1710460800000 = 2024
   \<and> getMonth (- 18000000) 1710460800000 = 2
   \<and> getDate (- 18000000) 1710460800000 = 14
   \<and> filterTasks (- 18000000)
        [\<lparr>text = u16 ''Buy milk '' @ [0xD83D, 0xDCC5] @ u16 '' 2024-03-15'',
          completed = False, filePath = u16 ''n.md'', dueDate = Some (Date 1710460800000),
          rawText = u16 ''Buy milk '' @ [0xD83D, 0xDCC5] @ u16 '' 2024-03-15''\<rparr>]
        \<lparr>dailyNote = \<lparr>savePath = [], templatePath = [], fileNameFormat = []\<rparr>,
         weeklyNote = \<lparr>savePath = [], templatePath = [], fileNameFormat = []\<rparr>,
         monthlyNote = \<lparr>savePath = [], templatePath = [], fileNameFormat = []\<rparr>,
         quarterlyNote = \<lparr>savePath = [], templatePath = [], fileNameFormat = []\<rparr>,
         yearlyNote = \<lparr>savePath = [], templatePath = [], fileNameFormat = []\<rparr>,
         taskFilter = \<lparr>customFilter = []\<rparr>\<rparr>
        (Date (newDate (- 18000000) 2024 2 14))
     = [\<lparr>text = u16 ''Buy milk '' @ [0xD83D, 0xDCC5] @ u16 '' 2024-03-15'',
          completed = False, filePath = u16 ''n.md'', dueDate = Some (Date 1710460800000),
          rawText = u16 ''Buy milk '' @ [0xD83D, 0xDCC5] @ u16 '' 2024-03-15''\<rparr>]"
proof -
  have 1: "extractBasicTasks
     [(u16 ''n.md'',
       Some (u16 ''- [ ] Buy milk '' @ [0xD83D, 0xDCC5] @ u16 '' 2024-03-15''))]
   = [\<lparr>text = u16 ''Buy milk '' @ [0xD83D, 0xDCC5] @ u16 '' 2024-03-15'',
        completed = False, filePath = u16 ''n.md'', dueDate = Some (Date 1710460800000),
        rawText = u16 ''Buy milk '' @ [0xD83D, 0xDCC5] @ u16 '' 2024-03-15''\<rparr>]"
    by code_simp
  have 2: "newDate (- 18000000) 2024 2 15 = 1710478800000"
    "newDate (- 18000000) 2024 2 14 = 1710392400000"
    by (simp_all add: newDate_def MakeDate_def MakeTime_def MakeDay_def daysBeforeMonth_def
        DayFromYear_def UTC_def msPerDay_def Let_def)
  have 3: "getFullYear (- 18000000) 1710460800000 = 2024"
    "getMonth (- 18000000) 1710460800000 = 2"
    "getDate (- 18000000) 1710460800000 = 14"
    by (simp_all add: getFullYear_def getMonth_def getDate_def LocalTime_def YearFromTime_def
        YearFromDay_def yearAbove_def yearSearch.simps Day_def msPerDay_def DayFromYear_def
        MonthFromTime_def DateFromTime_def DayWithinYear_def InLeapYear_def Let_def)
  have 4: "setHours (- 18000000) (Date 1710392400000) 23 59 59 999 = Date 1710478799999"
    by (simp add: setHours_def TimeClip_def UTC_def LocalTime_def MakeDate_def MakeTime_def
        Day_def msPerDay_def)
  show ?thesis
    unfolding 1 2 3
    by (simp add: filterTasks_def parseCustomFilter_def trim_def 4)
qed


end
